theory Spec2Isabelle
  imports Complex_Main "HOL-Library.Sublist"
begin

section \<open>JavaScript values used by \<^verbatim>\<open>device.ts\<close>\<close>

text \<open>
  Every rejection of a promise and every \<^verbatim>\<open>throw\<close> of the source is a value of type
  \<open>error\<close>. \<open>Error msg\<close> is \<^verbatim>\<open>new Error(msg)\<close>, as \<^verbatim>\<open>device.ts\<close> creates it and as the ssh2
  client throws it for a client that is not connected: such an object has no \<^verbatim>\<open>code\<close> property. \<open>TransportError c msg\<close> is an error object handed over by
  the ssh2 client or its SFTP session; \<open>c\<close> is its numeric \<^verbatim>\<open>code\<close> property when it has one.
\<close>

datatype error = Error string | TransportError "nat option" string

fun error_code :: "error \<Rightarrow> nat option" where
  "error_code (Error msg) = None"
| "error_code (TransportError c msg) = c"

text \<open>\<^verbatim>\<open>ssh2.SFTP_STATUS_CODE.NO_SUCH_FILE\<close> and two further SFTP status codes.\<close>

definition NO_SUCH_FILE :: nat where "NO_SUCH_FILE = 2"
definition PERMISSION_DENIED :: nat where "PERMISSION_DENIED = 3"
definition FAILURE :: nat where "FAILURE = 4"

text \<open>
  A number as the progress callback receives it: the result of \<^verbatim>\<open>Math.round\<close> is an integer,
  \<^verbatim>\<open>NaN\<close> or an infinity.
\<close>

datatype number = NaN | Infinity | Integer int

text \<open>A value inside a template literal: \<^verbatim>\<open>undefined\<close> prints as the word itself.\<close>

fun template :: "string option \<Rightarrow> string" where
  "template None = ''undefined''"
| "template (Some s) = s"

fun digit_char :: "nat \<Rightarrow> char" where
  "digit_char n = ''0123456789'' ! n"

fun string_of_nat :: "nat \<Rightarrow> string" where
  "string_of_nat n = (if n < 10 then [digit_char n] else string_of_nat (n div 10) @ [digit_char (n mod 10)])"

declare string_of_nat.simps [simp del]

fun startsWith :: "string \<Rightarrow> string \<Rightarrow> bool" where
  "startsWith s [] = True"
| "startsWith [] (p # ps) = False"
| "startsWith (c # cs) (p # ps) = (c = p \<and> startsWith cs ps)"

text \<open>\<^verbatim>\<open>s.split('/')\<close>: the pieces between the slashes; never the empty list.\<close>

fun split :: "string \<Rightarrow> string list" where
  "split [] = [] # []"
| "split (c # cs) =
     (if c = CHR ''/'' then [] # split cs
      else (case split cs of [] \<Rightarrow> [c] # [] | w # ws \<Rightarrow> (c # w) # ws))"

fun join_slash :: "string list \<Rightarrow> string" where
  "join_slash [] = []"
| "join_slash [s] = s"
| "join_slash (s # t # ss) = s @ ''/'' @ join_slash (t # ss)"

subsection \<open>The \<^verbatim>\<open>path.posix\<close> functions of Node.js\<close>

text \<open>
  \<^verbatim>\<open>isAbsolute\<close>, \<^verbatim>\<open>normalize\<close> and \<^verbatim>\<open>join\<close> belong to the Node.js runtime. They are written
  here after Node's implementation: \<^verbatim>\<open>normalizeString\<close> drops empty and \<^verbatim>\<open>.\<close> segments, lets
  \<^verbatim>\<open>..\<close> remove the segment before it, and keeps a \<^verbatim>\<open>..\<close> that has nothing to remove only
  when the path is relative.
\<close>

definition isAbsolute :: "string \<Rightarrow> bool" where
  "isAbsolute p = (case p of [] \<Rightarrow> False | c # cs \<Rightarrow> c = CHR ''/'')"

fun normalizeString :: "bool \<Rightarrow> string list \<Rightarrow> string list \<Rightarrow> string list" where
  "normalizeString allowAboveRoot res [] = res"
| "normalizeString allowAboveRoot res (seg # segs) =
     (if seg = [] \<or> seg = ''.'' then normalizeString allowAboveRoot res segs
      else if seg = ''..'' then
        (if res \<noteq> [] \<and> last res \<noteq> ''..'' then normalizeString allowAboveRoot (butlast res) segs
         else if allowAboveRoot then normalizeString allowAboveRoot (res @ [''..'']) segs
         else normalizeString allowAboveRoot res segs)
      else normalizeString allowAboveRoot (res @ [seg]) segs)"

definition normalize :: "string \<Rightarrow> string" where
  "normalize p =
     (if p = [] then ''.''
      else
        (let isAbs = isAbsolute p;
             trailingSeparator = (last p = CHR ''/'');
             q = join_slash (normalizeString (\<not> isAbs) [] (split p))
         in if q = [] then (if isAbs then ''/'' else if trailingSeparator then ''./'' else ''.'')
            else (if isAbs then ''/'' else []) @ q @ (if trailingSeparator then ''/'' else [])))"

text \<open>\<^verbatim>\<open>path.posix.join(a, b)\<close>: the non-empty arguments, joined by a slash, normalised.\<close>

definition posix_join :: "string \<Rightarrow> string \<Rightarrow> string" where
  "posix_join a b =
     (let args = filter (\<lambda>s. s \<noteq> []) [a, b]
      in if args = [] then ''.'' else normalize (join_slash args))"

section \<open>The device and the ssh2 client behind it\<close>

type_synonym path = string

text \<open>
  \<^verbatim>\<open>ssh2Streams.Stats\<close>: the source reads nothing of it but \<^verbatim>\<open>isDirectory()\<close>.
\<close>

datatype Stats = Stats (isDirectory: bool)

datatype SFTPWrapper = SFTPWrapper

datatype ip_version = IPv4 | IPv6

text \<open>
  \<^verbatim>\<open>DnssdService\<close>, with the fields \<^verbatim>\<open>device.ts\<close> reads. \<^verbatim>\<open>ifaceName\<close> is not declared by the
  interface: the source reads it through a cast to \<^verbatim>\<open>any\<close>, so it may be absent. \<^verbatim>\<open>iface\<close> may
  be absent too: the services that \<^verbatim>\<open>device.ts\<close> builds itself are cast to the interface
  without it. \<open>txtRecords\<close> is \<^verbatim>\<open>txt\<close>, the dictionary of text records.
\<close>

record DnssdService =
  name :: string
  address :: string
  ipv :: ip_version
  iface :: "nat option"
  ifaceName :: "string option"
  txtRecords :: "(string \<times> string) list"

datatype mode = ModeString string | ModeNumber nat

text \<open>The three event emitters; \<open>fired\<close> below lists the events fired so far, oldest first.\<close>

datatype event = WillConnect | DidConnect | DidDisconnect

text \<open>
  Every method that \<^verbatim>\<open>device.ts\<close> invokes on the ssh2 client or on its SFTP session is one
  \<open>call\<close>; \<open>calls\<close> below lists the invocations made so far, oldest first. A method that
  the client refuses with a throw, for want of a socket, is not among them: nothing has been
  asked of the transport. A device that leaves \<open>calls\<close> as it was has asked nothing of it.
\<close>

datatype call =
    ClientConnect string
  | ClientSftp
  | ClientEnd
  | ClientExec string
  | ClientShell
  | ClientForwardOut string nat string nat
  | SftpEnd
  | SftpChmod path mode
  | SftpMkdir path
  | SftpFastGet path path
  | SftpFastPut path path "string option"
  | SftpReaddir path
  | SftpStat path
  | SftpUnlink path
  | SftpRmdir path

text \<open>
  The ssh2 library and the remote device are not part of the repository. They are a
  parameter of every operation: a record of functions that say, for a state \<open>'r\<close> of the
  world behind the client, how each invocation settles and what the world is afterwards.
  A bulk transfer settles with the list of \<^verbatim>\<open>step(transferred, chunk, total)\<close> reports it made
  and its final error, if any.
\<close>

record 'r ssh2 =
  client_connect :: "string \<Rightarrow> 'r \<Rightarrow> error option \<times> 'r"
  client_sftp :: "'r \<Rightarrow> error option \<times> 'r"
  client_exec :: "string \<Rightarrow> 'r \<Rightarrow> error option \<times> 'r"
  client_shell :: "'r \<Rightarrow> error option \<times> 'r"
  client_forwardOut :: "string \<Rightarrow> nat \<Rightarrow> string \<Rightarrow> nat \<Rightarrow> 'r \<Rightarrow> error option \<times> 'r"
  sftp_chmod :: "path \<Rightarrow> mode \<Rightarrow> 'r \<Rightarrow> error option \<times> 'r"
  sftp_mkdir :: "path \<Rightarrow> 'r \<Rightarrow> error option \<times> 'r"
  sftp_fastGet :: "path \<Rightarrow> path \<Rightarrow> 'r \<Rightarrow> ((nat \<times> nat \<times> nat) list \<times> error option) \<times> 'r"
  sftp_fastPut :: "path \<Rightarrow> path \<Rightarrow> string option \<Rightarrow> 'r \<Rightarrow> ((nat \<times> nat \<times> nat) list \<times> error option) \<times> 'r"
  sftp_readdir :: "path \<Rightarrow> 'r \<Rightarrow> (error + string list) \<times> 'r"
  sftp_stat :: "path \<Rightarrow> 'r \<Rightarrow> (error + Stats) \<times> 'r"
  sftp_unlink :: "path \<Rightarrow> 'r \<Rightarrow> error option \<times> 'r"
  sftp_rmdir :: "path \<Rightarrow> 'r \<Rightarrow> error option \<times> 'r"

text \<open>
  The fields of class \<^verbatim>\<open>Device\<close>. \<open>client\<close> is the state of the world behind
  \<^verbatim>\<open>this.client\<close>; the private fields \<^verbatim>\<open>_homeDirectoryAttr\<close>, \<^verbatim>\<open>_isConnecting\<close> and
  \<^verbatim>\<open>_isConnected\<close> carry the prefix \<open>priv_\<close>.

  Modelled after the ssh2 library: \<open>sock_writable\<close> says whether \<^verbatim>\<open>this.client\<close> holds a writable
  socket. The client has one once \<^verbatim>\<open>connect\<close> has made it ready, and none before the first
  \<^verbatim>\<open>connect\<close>, after a \<^verbatim>\<open>connect\<close> that failed, and after \<^verbatim>\<open>end()\<close>. The methods of the client that
  open a channel (\<^verbatim>\<open>sftp\<close>, \<^verbatim>\<open>exec\<close>, \<^verbatim>\<open>shell\<close>, \<^verbatim>\<open>forwardOut\<close>) test it first and throw
  \<^verbatim>\<open>Error('Not connected')\<close> without it, before anything is sent; thrown inside the executor of
  a promise, that error rejects the promise.
\<close>

record 'r device =
  service :: DnssdService
  client :: 'r
  sock_writable :: bool
  sftp :: "SFTPWrapper option"
  priv_homeDirectoryAttr :: "Stats option"
  priv_isConnecting :: bool
  priv_isConnected :: bool
  fired :: "event list"
  calls :: "call list"

text \<open>The constructor: nothing connected, nothing cached, nothing fired.\<close>

definition new_Device :: "DnssdService \<Rightarrow> 'r \<Rightarrow> 'r device" where
  "new_Device svc world =
     \<lparr>service = svc, client = world, sock_writable = False, sftp = None,
      priv_homeDirectoryAttr = None,
      priv_isConnecting = False, priv_isConnected = False, fired = [], calls = []\<rparr>"

definition fire :: "event \<Rightarrow> 'r device \<Rightarrow> 'r device" where
  "fire e d = d\<lparr>fired := fired d @ [e]\<rparr>"

definition invoke :: "call \<Rightarrow> 'r \<Rightarrow> 'r device \<Rightarrow> 'r device" where
  "invoke c world d = d\<lparr>client := world, calls := calls d @ [c]\<rparr>"

subsection \<open>Getters\<close>

definition username :: "'r device \<Rightarrow> string option" where
  "username d = map_of (txtRecords (service d)) ''ev3dev.robot.user''"

definition isConnecting :: "'r device \<Rightarrow> bool" where
  "isConnecting d = priv_isConnecting d"

definition isConnected :: "'r device \<Rightarrow> bool" where
  "isConnected d = priv_isConnected d"

definition homeDirectoryAttr :: "'r device \<Rightarrow> error + Stats" where
  "homeDirectoryAttr d =
     (case priv_homeDirectoryAttr d of
        None \<Rightarrow> Inl (Error ''Not connected'')
      | Some attr \<Rightarrow> Inr attr)"

text \<open>\<^verbatim>\<open>a || b\<close> takes \<^verbatim>\<open>b\<close> when \<^verbatim>\<open>a\<close> is undefined or the empty string.\<close>

definition homeDirectoryPath :: "'r device \<Rightarrow> string" where
  "homeDirectoryPath d =
     (case map_of (txtRecords (service d)) ''ev3dev.robot.home'' of
        None \<Rightarrow> ''/home/'' @ template (username d)
      | Some h \<Rightarrow> if h = [] then ''/home/'' @ template (username d) else h)"

subsection \<open>The operations that wrap one SFTP request\<close>

text \<open>
  A \<^verbatim>\<open>Promise<void>\<close> settles as an \<open>error option\<close>: \<open>None\<close> when it resolves, \<open>Some err\<close>
  when it rejects with \<open>err\<close>. A promise of a value settles as \<open>error + 'a\<close>.
\<close>

definition not_connected :: error where
  "not_connected = Error ''Not connected''"

definition chmod :: "'r ssh2 \<Rightarrow> path \<Rightarrow> mode \<Rightarrow> 'r device \<Rightarrow> error option \<times> 'r device" where
  "chmod T p m d =
     (case sftp d of
        None \<Rightarrow> (Some not_connected, d)
      | Some s \<Rightarrow> (case sftp_chmod T p m (client d) of
                    (err, w) \<Rightarrow> (err, invoke (SftpChmod p m) w d)))"

definition mkdir :: "'r ssh2 \<Rightarrow> path \<Rightarrow> 'r device \<Rightarrow> error option \<times> 'r device" where
  "mkdir T p d =
     (case sftp d of
        None \<Rightarrow> (Some not_connected, d)
      | Some s \<Rightarrow> (case sftp_mkdir T p (client d) of
                    (err, w) \<Rightarrow> (err, invoke (SftpMkdir p) w d)))"

definition ls :: "'r ssh2 \<Rightarrow> path \<Rightarrow> 'r device \<Rightarrow> (error + string list) \<times> 'r device" where
  "ls T p d =
     (case sftp d of
        None \<Rightarrow> (Inl not_connected, d)
      | Some s \<Rightarrow> (case sftp_readdir T p (client d) of
                    (r, w) \<Rightarrow> (r, invoke (SftpReaddir p) w d)))"

definition stat :: "'r ssh2 \<Rightarrow> path \<Rightarrow> 'r device \<Rightarrow> (error + Stats) \<times> 'r device" where
  "stat T p d =
     (case sftp d of
        None \<Rightarrow> (Inl not_connected, d)
      | Some s \<Rightarrow> (case sftp_stat T p (client d) of
                    (r, w) \<Rightarrow> (r, invoke (SftpStat p) w d)))"

definition rm :: "'r ssh2 \<Rightarrow> path \<Rightarrow> 'r device \<Rightarrow> error option \<times> 'r device" where
  "rm T p d =
     (case sftp d of
        None \<Rightarrow> (Some not_connected, d)
      | Some s \<Rightarrow> (case sftp_unlink T p (client d) of
                    (err, w) \<Rightarrow> (err, invoke (SftpUnlink p) w d)))"

definition rmdir :: "'r ssh2 \<Rightarrow> path \<Rightarrow> 'r device \<Rightarrow> error option \<times> 'r device" where
  "rmdir T p d =
     (case sftp d of
        None \<Rightarrow> (Some not_connected, d)
      | Some s \<Rightarrow> (case sftp_rmdir T p (client d) of
                    (err, w) \<Rightarrow> (err, invoke (SftpRmdir p) w d)))"

subsection \<open>The operations that go to the client directly\<close>

text \<open>
  \<^verbatim>\<open>exec\<close>, \<^verbatim>\<open>shell\<close> and \<^verbatim>\<open>forwardOut\<close> look at no field of the device before they invoke
  the client; the test for the socket is the client's own, and its throw rejects the promise
  they return. The channel they resolve with is not modelled.
\<close>

definition exec :: "'r ssh2 \<Rightarrow> string \<Rightarrow> 'r device \<Rightarrow> error option \<times> 'r device" where
  "exec T command d =
     (if \<not> sock_writable d then (Some not_connected, d)
      else (case client_exec T command (client d) of
              (err, w) \<Rightarrow> (err, invoke (ClientExec command) w d)))"

definition createExecObservable :: "'r ssh2 \<Rightarrow> string \<Rightarrow> 'r device \<Rightarrow> error option \<times> 'r device" where
  "createExecObservable T command d = exec T command d"

definition shell :: "'r ssh2 \<Rightarrow> 'r device \<Rightarrow> error option \<times> 'r device" where
  "shell T d =
     (if \<not> sock_writable d then (Some not_connected, d)
      else (case client_shell T (client d) of
              (err, w) \<Rightarrow> (err, invoke ClientShell w d)))"

definition forwardOut ::
  "'r ssh2 \<Rightarrow> string \<Rightarrow> nat \<Rightarrow> string \<Rightarrow> nat \<Rightarrow> 'r device \<Rightarrow> error option \<times> 'r device" where
  "forwardOut T srcAddr srcPort destAddr destPort d =
     (if \<not> sock_writable d then (Some not_connected, d)
      else (case client_forwardOut T srcAddr srcPort destAddr destPort (client d) of
              (err, w) \<Rightarrow>
                (err, invoke (ClientForwardOut srcAddr srcPort destAddr destPort) w d)))"

definition brickd :: "'r ssh2 \<Rightarrow> 'r device \<Rightarrow> error option \<times> 'r device" where
  "brickd T d = forwardOut T ''localhost'' 0 ''localhost'' 31313 d"

subsection \<open>Connecting and disconnecting\<close>

text \<open>The host that \<^verbatim>\<open>connectClient\<close> hands to \<^verbatim>\<open>client.connect\<close>.\<close>

definition connectAddress :: "string \<Rightarrow> DnssdService \<Rightarrow> string" where
  "connectAddress platform svc =
     (if ipv svc = IPv6 \<and> startsWith (address svc) ''fe80::'' then
        (if platform = ''win32'' then address svc @ ''%'' @ template (map_option string_of_nat (iface svc))
         else address svc @ ''%'' @ template (ifaceName svc))
      else address svc)"

definition connectClient :: "'r ssh2 \<Rightarrow> string \<Rightarrow> 'r device \<Rightarrow> error option \<times> 'r device" where
  "connectClient T platform d =
     (let host = connectAddress platform (service d)
      in case client_connect T host (client d) of
           (err, w) \<Rightarrow> (err, (invoke (ClientConnect host) w d)\<lparr>sock_writable := (err = None)\<rparr>))"

definition getSftp :: "'r ssh2 \<Rightarrow> 'r device \<Rightarrow> (error + SFTPWrapper) \<times> 'r device" where
  "getSftp T d =
     (if \<not> sock_writable d then (Inl not_connected, d)
      else (case client_sftp T (client d) of
              (Some err, w) \<Rightarrow> (Inl err, invoke ClientSftp w d)
            | (None, w) \<Rightarrow> (Inr SFTPWrapper, invoke ClientSftp w d)))"

text \<open>
  \<^verbatim>\<open>sftp.end()\<close> and \<^verbatim>\<open>client.end()\<close> return nothing; they are recorded as invocations, and
  after \<^verbatim>\<open>client.end()\<close> the client has no writable socket. The \<^verbatim>\<open>close\<close> event that the client may emit later runs \<open>disconnect\<close> once more; it is an
  event of the environment, modelled by \<open>client_on_close\<close>.
\<close>

definition disconnect :: "'r device \<Rightarrow> 'r device" where
  "disconnect d =
     (let d1 = d\<lparr>priv_isConnected := False\<rparr>;
          d2 = (case sftp d1 of
                  None \<Rightarrow> d1
                | Some s \<Rightarrow> (invoke SftpEnd (client d1) d1)\<lparr>sftp := None\<rparr>);
          d3 = (invoke ClientEnd (client d2) d2)\<lparr>sock_writable := False\<rparr>
      in fire DidDisconnect d3)"

definition client_on_close :: "'r device \<Rightarrow> 'r device" where
  "client_on_close d = disconnect d"

text \<open>
  \<^verbatim>\<open>connect\<close>: the \<^verbatim>\<open>await this.connectClient()\<close> stands before the \<^verbatim>\<open>try\<close>, so its rejection
  leaves the function at once; the \<^verbatim>\<open>catch\<close> block serves the two awaits inside the \<^verbatim>\<open>try\<close>.
\<close>

definition connect_catch :: "error \<Rightarrow> 'r device \<Rightarrow> error option \<times> 'r device" where
  "connect_catch err d = (Some err, disconnect (d\<lparr>priv_isConnecting := False\<rparr>))"

definition connect :: "'r ssh2 \<Rightarrow> string \<Rightarrow> 'r device \<Rightarrow> error option \<times> 'r device" where
  "connect T platform d =
     (let d1 = fire WillConnect (d\<lparr>priv_isConnecting := True\<rparr>)
      in case connectClient T platform d1 of
           (Some err, d2) \<Rightarrow> (Some err, d2)
         | (None, d2) \<Rightarrow>
             (case getSftp T d2 of
                (Inl err, d3) \<Rightarrow> connect_catch err d3
              | (Inr s, d3) \<Rightarrow>
                  (let d4 = d3\<lparr>sftp := Some s\<rparr>
                   in case stat T (homeDirectoryPath d4) d4 of
                        (Inl err, d5) \<Rightarrow> connect_catch err d5
                      | (Inr attr, d5) \<Rightarrow>
                          (None, fire DidConnect
                             (d5\<lparr>priv_homeDirectoryAttr := Some attr,
                                 priv_isConnecting := False,
                                 priv_isConnected := True\<rparr>)))))"

subsection \<open>Bulk transfer\<close>

text \<open>
  \<^verbatim>\<open>Math.round(transferred / total * 100)\<close> on IEEE doubles. The division and the
  multiplication each round their exact result to a double; \<open>fl\<close> is that rounding, a
  parameter here. \<^verbatim>\<open>Math.round\<close> itself is exact: the nearest integer, a tie going up.
  Dividing by zero gives \<^verbatim>\<open>NaN\<close> for \<^verbatim>\<open>0 / 0\<close> and \<^verbatim>\<open>Infinity\<close> otherwise, and both
  pass through the multiplication and through \<^verbatim>\<open>Math.round\<close> unchanged.
\<close>

definition percentage :: "(rat \<Rightarrow> rat) \<Rightarrow> nat \<Rightarrow> nat \<Rightarrow> number" where
  "percentage fl transferred totalBytes =
     (if totalBytes = 0 then (if transferred = 0 then NaN else Infinity)
      else Integer \<lfloor>fl (fl (of_nat transferred / of_nat totalBytes) * 100) + 1 / 2\<rfloor>)"

text \<open>
  The \<^verbatim>\<open>step\<close> callback. \<open>reportPercentage\<close> says whether the caller supplied the optional
  callback; the result lists the values the callback is invoked with.
\<close>

definition step :: "(rat \<Rightarrow> rat) \<Rightarrow> bool \<Rightarrow> nat \<times> nat \<times> nat \<Rightarrow> number list" where
  "step fl reportPercentage r =
     (case r of (transferred, chunk, totalBytes) \<Rightarrow>
        if reportPercentage then [percentage fl transferred totalBytes] else [])"

definition get ::
  "(rat \<Rightarrow> rat) \<Rightarrow> 'r ssh2 \<Rightarrow> path \<Rightarrow> path \<Rightarrow> bool \<Rightarrow> 'r device
     \<Rightarrow> (error option \<times> number list) \<times> 'r device" where
  "get fl T remote local reportPercentage d =
     (case sftp d of
        None \<Rightarrow> ((Some not_connected, []), d)
      | Some s \<Rightarrow> (case sftp_fastGet T remote local (client d) of
                    ((steps, err), w) \<Rightarrow>
                      ((err, concat (map (step fl reportPercentage) steps)),
                       invoke (SftpFastGet remote local) w d)))"

definition put ::
  "(rat \<Rightarrow> rat) \<Rightarrow> 'r ssh2 \<Rightarrow> path \<Rightarrow> path \<Rightarrow> string option \<Rightarrow> bool \<Rightarrow> 'r device
     \<Rightarrow> (error option \<times> number list) \<times> 'r device" where
  "put fl T local remote md reportPercentage d =
     (case sftp d of
        None \<Rightarrow> ((Some not_connected, []), d)
      | Some s \<Rightarrow> (case sftp_fastPut T local remote md (client d) of
                    ((steps, err), w) \<Rightarrow>
                      ((err, concat (map (step fl reportPercentage) steps)),
                       invoke (SftpFastPut local remote md) w d)))"

text \<open>
  Modelled after the ssh2 library: what \<^verbatim>\<open>fastGet\<close> and \<^verbatim>\<open>fastPut\<close> report to \<^verbatim>\<open>step\<close>. Both
  read the size of the source first, then move the file chunk by chunk, never reading beyond
  its size; after each chunk of \<^verbatim>\<open>nb\<close> bytes they add \<^verbatim>\<open>nb\<close> to the bytes moved so far and call
  \<^verbatim>\<open>step(total, nb, fsize)\<close>, and they are done when the bytes moved have reached the size. An
  empty file has reached its size before the first chunk: nothing is reported for it.
  \<open>chunks\<close> lists how many bytes each read delivers.
\<close>

fun fastXfer_steps :: "nat \<Rightarrow> nat \<Rightarrow> nat list \<Rightarrow> (nat \<times> nat \<times> nat) list" where
  "fastXfer_steps fsize sofar [] = []"
| "fastXfer_steps fsize sofar (c # chunks) =
     (if fsize \<le> sofar then []
      else (sofar + min c (fsize - sofar), min c (fsize - sofar), fsize)
           # fastXfer_steps fsize (sofar + min c (fsize - sofar)) chunks)"

definition fastXfer :: "nat \<Rightarrow> nat list \<Rightarrow> (nat \<times> nat \<times> nat) list" where
  "fastXfer fsize chunks = fastXfer_steps fsize 0 chunks"

subsection \<open>Recursive create\<close>

definition must_be_absolute :: error where
  "must_be_absolute = Error ''The supplied file path must be absolute.''"

text \<open>The message names the prefix between double quotes.\<close>

definition not_a_directory :: "path \<Rightarrow> error" where
  "not_a_directory part =
     Error (''Cannot create directory: '' @ [CHR 0x22] @ part @ [CHR 0x22]
            @ '' exists but isn'' @ [CHR 0x27] @ ''t a directory'')"

text \<open>
  The body of the \<^verbatim>\<open>try\<close>: what it throws, if anything. The \<^verbatim>\<open>catch\<close> block of the loop
  receives the rejection of \<open>stat\<close> and the error thrown for a non-directory alike.
\<close>

definition mkdir_p_try :: "'r ssh2 \<Rightarrow> path \<Rightarrow> 'r device \<Rightarrow> error option \<times> 'r device" where
  "mkdir_p_try T part d =
     (case stat T part d of
        (Inl err, d1) \<Rightarrow> (Some err, d1)
      | (Inr st, d1) \<Rightarrow> if \<not> isDirectory st then (Some (not_a_directory part), d1) else (None, d1))"

fun mkdir_p_loop :: "'r ssh2 \<Rightarrow> path \<Rightarrow> string list \<Rightarrow> 'r device \<Rightarrow> error option \<times> 'r device" where
  "mkdir_p_loop T part [] d = (None, d)"
| "mkdir_p_loop T part (n # names) d =
     (case mkdir_p_try T (posix_join part n) d of
        (None, d1) \<Rightarrow> mkdir_p_loop T (posix_join part n) names d1
      | (Some err, d1) \<Rightarrow>
          if error_code err \<noteq> Some NO_SUCH_FILE then (Some err, d1)
          else (case mkdir T (posix_join part n) d1 of
                  (Some e, d2) \<Rightarrow> (Some e, d2)
                | (None, d2) \<Rightarrow> mkdir_p_loop T (posix_join part n) names d2))"

definition mkdir_p :: "'r ssh2 \<Rightarrow> path \<Rightarrow> 'r device \<Rightarrow> error option \<times> 'r device" where
  "mkdir_p T dirPath d =
     (if \<not> isAbsolute dirPath then (Some must_be_absolute, d)
      else mkdir_p_loop T ''/'' (tl (split dirPath)) d)"

text \<open>The successive values of \<^verbatim>\<open>part\<close>: the prefixes the loop visits, in order.\<close>

fun parts :: "path \<Rightarrow> string list \<Rightarrow> path list" where
  "parts part [] = []"
| "parts part (n # names) = posix_join part n # parts (posix_join part n) names"

text \<open>
  A plain name is a path segment that \<^verbatim>\<open>normalize\<close> keeps as it is; \<open>absolute_path\<close> is the
  absolute path with the given segments.
\<close>

definition plain :: "string \<Rightarrow> bool" where
  "plain n = (n \<noteq> [] \<and> n \<noteq> ''.'' \<and> n \<noteq> ''..'' \<and> CHR ''/'' \<notin> set n)"

definition absolute_path :: "string list \<Rightarrow> path" where
  "absolute_path ns = ''/'' @ join_slash ns"

text \<open>The paths of the \<^verbatim>\<open>stat\<close> and of the \<^verbatim>\<open>mkdir\<close> requests among some invocations, in order.\<close>

definition stat_paths :: "call list \<Rightarrow> path list" where
  "stat_paths cs = concat (map (\<lambda>c. case c of SftpStat p \<Rightarrow> [p] | _ \<Rightarrow> []) cs)"

definition mkdir_paths :: "call list \<Rightarrow> path list" where
  "mkdir_paths cs = concat (map (\<lambda>c. case c of SftpMkdir p \<Rightarrow> [p] | _ \<Rightarrow> []) cs)"

subsection \<open>Recursive remove\<close>

text \<open>
  \<^verbatim>\<open>rm_rf\<close> calls itself for every entry that the remote lists, so nothing in the source
  bounds its depth: a remote that lists a directory inside every directory keeps it running.
  The first argument bounds the depth of the calls; \<open>Pending\<close> is the promise that has not
  settled within that depth.
\<close>

datatype promise = Pending | Settled "error option"

fun rm_rf :: "'r ssh2 \<Rightarrow> nat \<Rightarrow> path \<Rightarrow> 'r device \<Rightarrow> promise \<times> 'r device"
  and rm_rf_each :: "'r ssh2 \<Rightarrow> nat \<Rightarrow> path \<Rightarrow> string list \<Rightarrow> 'r device \<Rightarrow> promise \<times> 'r device"
where
  "rm_rf T 0 p d = (Pending, d)"
| "rm_rf T (Suc depth) p d =
     (case stat T p d of
        (Inl err, d1) \<Rightarrow> (Settled (Some err), d1)
      | (Inr st, d1) \<Rightarrow>
          if isDirectory st then
            (case ls T p d1 of
               (Inl err, d2) \<Rightarrow> (Settled (Some err), d2)
             | (Inr entries, d2) \<Rightarrow>
                 (case rm_rf_each T depth p entries d2 of
                    (Settled None, d3) \<Rightarrow>
                      (case rmdir T p d3 of (err, d4) \<Rightarrow> (Settled err, d4))
                  | (r, d3) \<Rightarrow> (r, d3)))
          else (case rm T p d1 of (err, d2) \<Rightarrow> (Settled err, d2)))"
| "rm_rf_each T depth p [] d = (Settled None, d)"
| "rm_rf_each T depth p (filename # entries) d =
     (case rm_rf T depth (p @ ''/'' @ filename) d of
        (Settled None, d1) \<Rightarrow> rm_rf_each T depth p entries d1
      | (r, d1) \<Rightarrow> (r, d1))"

section \<open>A simulated server\<close>

text \<open>
  One instance of the transport, for running the operations on concrete trees: a server
  whose handshake, SFTP subsystem, channels and transfers settle as scripted, whose file
  tree is a list of paths with their kinds in listing order, and whose \<open>faults\<close> make chosen
  invocations fail with chosen errors. Its requests follow the SFTP server of a POSIX
  system: the root directory is always there, \<^verbatim>\<open>mkdir\<close> creates one level and fails if the
  entry exists or the parent is no directory, \<^verbatim>\<open>unlink\<close> removes a file, \<^verbatim>\<open>rmdir\<close> removes an
  empty directory. The methods of the client that open a channel are reached only on a
  client with a socket, where they settle as scripted.
\<close>

datatype kind = File | Dir

record server =
  handshake :: "error option"
  subsystem :: "error option"
  channel :: "error option"
  transfer :: "(nat \<times> nat \<times> nat) list \<times> error option"
  tree :: "(path \<times> kind) list"
  faults :: "(call \<times> error) list"

definition no_such_file :: error where
  "no_such_file = TransportError (Some NO_SUCH_FILE) ''No such file''"

definition failure :: error where
  "failure = TransportError (Some FAILURE) ''Failure''"

text \<open>What the tree holds at a path.\<close>

definition node :: "(path \<times> kind) list \<Rightarrow> path \<Rightarrow> kind option" where
  "node t p = (if p = ''/'' then Some Dir else map_of t p)"

definition dirname :: "path \<Rightarrow> path" where
  "dirname p =
     (let q = join_slash (butlast (split p))
      in if q = [] then (if isAbsolute p then ''/'' else ''.'') else q)"

definition basename :: "path \<Rightarrow> string" where
  "basename p = last (split p)"

definition children :: "path \<Rightarrow> (path \<times> kind) list \<Rightarrow> path list" where
  "children p t = filter (\<lambda>q. q \<noteq> p \<and> dirname q = p) (map fst t)"

definition remove :: "path \<Rightarrow> (path \<times> kind) list \<Rightarrow> (path \<times> kind) list" where
  "remove p t = filter (\<lambda>e. fst e \<noteq> p) t"

definition server_stat :: "path \<Rightarrow> server \<Rightarrow> (error + Stats) \<times> server" where
  "server_stat p s =
     (case map_of (faults s) (SftpStat p) of
        Some err \<Rightarrow> (Inl err, s)
      | None \<Rightarrow> (case node (tree s) p of
                   None \<Rightarrow> (Inl no_such_file, s)
                 | Some k \<Rightarrow> (Inr (Stats (k = Dir)), s)))"

definition server_mkdir :: "path \<Rightarrow> server \<Rightarrow> error option \<times> server" where
  "server_mkdir p s =
     (case map_of (faults s) (SftpMkdir p) of
        Some err \<Rightarrow> (Some err, s)
      | None \<Rightarrow>
          if node (tree s) p \<noteq> None then (Some failure, s)
          else if node (tree s) (dirname p) \<noteq> Some Dir then (Some no_such_file, s)
          else (None, s\<lparr>tree := tree s @ [(p, Dir)]\<rparr>))"

definition server_readdir :: "path \<Rightarrow> server \<Rightarrow> (error + string list) \<times> server" where
  "server_readdir p s =
     (case map_of (faults s) (SftpReaddir p) of
        Some err \<Rightarrow> (Inl err, s)
      | None \<Rightarrow> (case node (tree s) p of
                   None \<Rightarrow> (Inl no_such_file, s)
                 | Some File \<Rightarrow> (Inl failure, s)
                 | Some Dir \<Rightarrow> (Inr (map basename (children p (tree s))), s)))"

definition server_unlink :: "path \<Rightarrow> server \<Rightarrow> error option \<times> server" where
  "server_unlink p s =
     (case map_of (faults s) (SftpUnlink p) of
        Some err \<Rightarrow> (Some err, s)
      | None \<Rightarrow> (case node (tree s) p of
                   None \<Rightarrow> (Some no_such_file, s)
                 | Some Dir \<Rightarrow> (Some failure, s)
                 | Some File \<Rightarrow> (None, s\<lparr>tree := remove p (tree s)\<rparr>)))"

definition server_rmdir :: "path \<Rightarrow> server \<Rightarrow> error option \<times> server" where
  "server_rmdir p s =
     (case map_of (faults s) (SftpRmdir p) of
        Some err \<Rightarrow> (Some err, s)
      | None \<Rightarrow> (case node (tree s) p of
                   None \<Rightarrow> (Some no_such_file, s)
                 | Some File \<Rightarrow> (Some failure, s)
                 | Some Dir \<Rightarrow> if children p (tree s) \<noteq> [] then (Some failure, s)
                              else (None, s\<lparr>tree := remove p (tree s)\<rparr>)))"

definition server_chmod :: "path \<Rightarrow> mode \<Rightarrow> server \<Rightarrow> error option \<times> server" where
  "server_chmod p m s =
     (case map_of (faults s) (SftpChmod p m) of
        Some err \<Rightarrow> (Some err, s)
      | None \<Rightarrow> (case node (tree s) p of
                   None \<Rightarrow> (Some no_such_file, s)
                 | Some k \<Rightarrow> (None, s)))"

definition simulated :: "server ssh2" where
  "simulated =
     \<lparr>client_connect = (\<lambda>host s. (handshake s, s)),
      client_sftp = (\<lambda>s. (subsystem s, s)),
      client_exec = (\<lambda>command s. (channel s, s)),
      client_shell = (\<lambda>s. (channel s, s)),
      client_forwardOut = (\<lambda>srcAddr srcPort destAddr destPort s. (channel s, s)),
      sftp_chmod = server_chmod,
      sftp_mkdir = server_mkdir,
      sftp_fastGet = (\<lambda>remote local s. (transfer s, s)),
      sftp_fastPut = (\<lambda>local remote md s. (transfer s, s)),
      sftp_readdir = server_readdir,
      sftp_stat = server_stat,
      sftp_unlink = server_unlink,
      sftp_rmdir = server_rmdir\<rparr>"

text \<open>A server that accepts everything and holds the given tree.\<close>

definition serving :: "(path \<times> kind) list \<Rightarrow> server" where
  "serving t =
     \<lparr>handshake = None, subsystem = None, channel = None, transfer = ([], None),
      tree = t, faults = []\<rparr>"


text \<open>The device of the USB service that \<^verbatim>\<open>getLocalDnssdService\<close> describes.\<close>

definition getLocalDnssdService :: DnssdService where
  "getLocalDnssdService =
     \<lparr>name = ''ev3dev device (USB)'', address = ''ev3dev.local'', ipv = IPv6, iface = None,
      ifaceName = None,
      txtRecords = [(''ev3dev.robot.user'', ''robot''), (''ev3dev.robot.home'', ''/home/robot'')]\<rparr>"

text \<open>A device with an open SFTP session on the given server, as \<open>connect\<close> leaves it.\<close>

definition connected_to :: "server \<Rightarrow> server device" where
  "connected_to s =
     (new_Device getLocalDnssdService s)
       \<lparr>sock_writable := True, sftp := Some SFTPWrapper,
        priv_homeDirectoryAttr := Some (Stats True), priv_isConnected := True\<rparr>"

section \<open>Scenarios\<close>

text \<open>A service found on an IPv6 link-local address, on interface 12, named \<^verbatim>\<open>eth0\<close>.\<close>

definition link_local :: DnssdService where
  "link_local =
     \<lparr>name = ''ev3dev'', address = ''fe80::1'', ipv = IPv6, iface = Some 12,
      ifaceName = Some ''eth0'', txtRecords = [(''ev3dev.robot.user'', ''robot'')]\<rparr>"

text \<open>A server whose transfers are of an empty file: nothing is reported.\<close>

definition empty_file :: "server device" where
  "empty_file =
     connected_to ((serving [(''/'', Dir), (''/f'', File)])\<lparr>transfer := (fastXfer 0 [], None)\<rparr>)"

text \<open>A server whose transfers are of a file of four bytes, read in chunks of 1, 1 and 2.\<close>

definition four_bytes :: "server device" where
  "four_bytes =
     connected_to ((serving [(''/'', Dir), (''/f'', File)])
                     \<lparr>transfer := (fastXfer 4 [1, 1, 2], None)\<rparr>)"

text \<open>A server that holds the home directory of user \<^verbatim>\<open>robot\<close>, and a device not yet connected to it.\<close>

definition robot_home :: server where
  "robot_home = serving [(''/'', Dir), (''/home'', Dir), (''/home/robot'', Dir)]"

definition idle :: "server device" where
  "idle = new_Device getLocalDnssdService robot_home"

text \<open>The same server behind a link on which the handshake times out.\<close>

definition timed_out :: error where
  "timed_out = TransportError None ''Timed out while waiting for handshake''"

definition unreachable :: "server device" where
  "unreachable = new_Device getLocalDnssdService (robot_home\<lparr>handshake := Some timed_out\<rparr>)"

text \<open>An empty tree, and a tree in which \<^verbatim>\<open>/a\<close> is a file.\<close>

definition empty_tree :: "(path \<times> kind) list" where
  "empty_tree = [(''/'', Dir)]"

definition file_a :: "(path \<times> kind) list" where
  "file_a = [(''/'', Dir), (''/a'', File)]"

text \<open>
  A directory \<^verbatim>\<open>/p\<close> with the files \<^verbatim>\<open>f1\<close> and \<^verbatim>\<open>f2\<close> and the directory \<^verbatim>\<open>d\<close>, which holds
  \<^verbatim>\<open>f3\<close>; beside it a file \<^verbatim>\<open>/q\<close>. On the second server \<^verbatim>\<open>unlink\<close> of \<^verbatim>\<open>/p/f2\<close> is denied.
\<close>

definition project :: "(path \<times> kind) list" where
  "project =
     [(''/'', Dir), (''/p'', Dir), (''/p/f1'', File), (''/p/f2'', File), (''/p/d'', Dir),
      (''/p/d/f3'', File), (''/q'', File)]"

definition denied :: error where
  "denied = TransportError (Some PERMISSION_DENIED) ''Permission denied''"

definition protecting_f2 :: server where
  "protecting_f2 = (serving project)\<lparr>faults := [(SftpUnlink ''/p/f2'', denied)]\<rparr>"


section \<open>Properties\<close>

subsection \<open>The connection target\<close>

lemma calls_connectClient:
  "calls (snd (connectClient T platform d)) = calls d @ [ClientConnect (connectAddress platform (service d))]"
  by (simp add: connectClient_def invoke_def Let_def split: prod.splits)

text \<open>
  C9. \<^verbatim>\<open>connectClient\<close> connects to the host \<open>connectAddress\<close> computes. For an IPv6 service
  whose address starts with \<^verbatim>\<open>fe80::\<close> that host is the address, a percent sign and the scope:
  the interface index, in decimal, on \<^verbatim>\<open>win32\<close>, the interface name on every other platform. An IPv4
  address, and an address that does not start with \<^verbatim>\<open>fe80::\<close>, is passed on as it is.
\<close>

theorem connectClient_scope_qualifier:
  "calls (snd (connectClient T platform d))
     = calls d @ [ClientConnect (connectAddress platform (service d))]
   \<and> (ipv svc = IPv6 \<and> startsWith (address svc) ''fe80::'' \<and> platform = ''win32''
        \<and> iface svc = Some i
        \<longrightarrow> connectAddress platform svc = address svc @ ''%'' @ string_of_nat i)
   \<and> (ipv svc = IPv6 \<and> startsWith (address svc) ''fe80::'' \<and> platform \<noteq> ''win32''
        \<and> ifaceName svc = Some nm
        \<longrightarrow> connectAddress platform svc = address svc @ ''%'' @ nm)
   \<and> (ipv svc = IPv4 \<or> \<not> startsWith (address svc) ''fe80::''
        \<longrightarrow> connectAddress platform svc = address svc)"
  by (auto simp: calls_connectClient connectAddress_def)

text \<open>The address \<^verbatim>\<open>fe80::1\<close> on both platform families, and an IPv4 address.\<close>

theorem connectClient_scope_qualifier_witness:
  "connectAddress ''win32'' link_local = ''fe80::1%12''
   \<and> connectAddress ''linux'' link_local = ''fe80::1%eth0''
   \<and> connectAddress ''linux'' (link_local\<lparr>address := ''192.168.137.3'', ipv := IPv4\<rparr>) = ''192.168.137.3''
   \<and> calls (snd (connectClient simulated ''win32'' (new_Device link_local (serving []))))
       = [ClientConnect ''fe80::1%12'']"
proof -
  have w: "ipv link_local = IPv6 \<and> startsWith (address link_local) ''fe80::'' \<and> ''win32'' = ''win32''
        \<and> iface link_local = Some 12"
    by (simp add: link_local_def)
  have l: "ipv link_local = IPv6 \<and> startsWith (address link_local) ''fe80::'' \<and> ''linux'' \<noteq> ''win32''
        \<and> ifaceName link_local = Some ''eth0''"
    by (simp add: link_local_def)
  have v: "ipv (link_local\<lparr>address := ''192.168.137.3'', ipv := IPv4\<rparr>) = IPv4" by simp
  have n: "string_of_nat 12 = ''12''" by (simp add: string_of_nat.simps)
  have c: "calls (new_Device link_local (serving [])) = []" by (simp add: new_Device_def)
  from connectClient_scope_qualifier [where T = simulated and platform = "''win32''"
      and d = "new_Device link_local (serving [])" and svc = link_local and i = 12] w n c
  have 1: "connectAddress ''win32'' link_local = ''fe80::1%12''"
    and 4: "calls (snd (connectClient simulated ''win32'' (new_Device link_local (serving []))))
       = [ClientConnect ''fe80::1%12'']"
    by (simp_all add: link_local_def new_Device_def)
  from connectClient_scope_qualifier [where T = simulated and platform = "''linux''"
      and d = "new_Device link_local (serving [])" and svc = link_local and nm = "''eth0''"] l
  have 2: "connectAddress ''linux'' link_local = ''fe80::1%eth0''"
    by (simp add: link_local_def)
  from connectClient_scope_qualifier [where T = simulated and platform = "''linux''"
      and d = "new_Device link_local (serving [])"
      and svc = "link_local\<lparr>address := ''192.168.137.3'', ipv := IPv4\<rparr>"] v
  have 3: "connectAddress ''linux'' (link_local\<lparr>address := ''192.168.137.3'', ipv := IPv4\<rparr>) = ''192.168.137.3''"
    by (simp add: link_local_def)
  from 1 2 3 4 show ?thesis by simp
qed

subsection \<open>Progress of a transfer\<close>

lemma percentage_zero_total: "percentage fl transferred 0 \<noteq> Integer k"
  by (simp add: percentage_def)

lemma concat_step:
  "concat (map (step fl True) steps) = map (\<lambda>r. percentage fl (fst r) (snd (snd r))) steps"
  by (induction steps) (simp_all add: step_def split_def)

lemma concat_step_absent: "concat (map (step fl False) steps) = []"
  by (induction steps) (simp_all add: step_def split_def)

lemma get_callbacks:
  "sftp d = Some s \<Longrightarrow> sftp_fastGet T remote local (client d) = ((steps, err), w)
   \<Longrightarrow> snd (fst (get fl T remote local True d)) = map (\<lambda>r. percentage fl (fst r) (snd (snd r))) steps"
  by (simp add: get_def concat_step)  

lemma put_callbacks:
  "sftp d = Some s \<Longrightarrow> sftp_fastPut T local remote md (client d) = ((steps, err), w)
   \<Longrightarrow> snd (fst (put fl T local remote md True d)) = map (\<lambda>r. percentage fl (fst r) (snd (snd r))) steps"
  by (simp add: put_def concat_step)  


text \<open>
  C10. With the callback supplied, \<open>get\<close> and \<open>put\<close> pass it
  \<^verbatim>\<open>Math.round(transferred / total * 100)\<close> for every chunk the transfer reports. For a total
  of zero bytes that value is no integer: it is \<^verbatim>\<open>NaN\<close> for \<^verbatim>\<open>0 / 0\<close>, whatever the rounding
  of the arithmetic. Only a transfer that reports no chunk leaves the callback uncalled.
\<close>

theorem zero_total_progress:
  "(sftp d = Some s \<and> sftp_fastGet T remote local (client d) = ((steps, err), w)
      \<longrightarrow> snd (fst (get fl T remote local True d))
            = map (\<lambda>r. percentage fl (fst r) (snd (snd r))) steps)
   \<and> (sftp d = Some s \<and> sftp_fastPut T local' remote' md (client d) = ((steps', err'), w')
      \<longrightarrow> snd (fst (put fl T local' remote' md True d))
            = map (\<lambda>r. percentage fl (fst r) (snd (snd r))) steps')
   \<and> (sftp d = Some s \<and> sftp_fastGet T remote local (client d) = ((steps, err), w)
      \<longrightarrow> (snd (fst (get fl T remote local True d)) = []) = (steps = []))
   \<and> (sftp d = Some s \<and> sftp_fastPut T local' remote' md (client d) = ((steps', err'), w')
      \<longrightarrow> (snd (fst (put fl T local' remote' md True d)) = []) = (steps' = []))
   \<and> percentage fl 0 0 = NaN
   \<and> percentage fl transferred 0 \<noteq> Integer k"
  using get_callbacks [of d s T remote local steps err w fl]
    put_callbacks [of d s T local' remote' md steps' err' w' fl]
  by (simp add: percentage_def)

text \<open>
  An empty file as the library transfers it: no chunk is reported, and the callback is not
  called.
\<close>

theorem zero_total_progress_witness:
  "snd (fst (get id simulated ''/f'' ''f'' True empty_file)) = []
   \<and> snd (fst (put id simulated ''f'' ''/f'' None True empty_file)) = []
   \<and> percentage id 0 0 = NaN"
proof -
  have g: "sftp empty_file = Some SFTPWrapper
      \<and> sftp_fastGet simulated ''/f'' ''f'' (client empty_file) = (([], None), client empty_file)"
    by (simp add: empty_file_def connected_to_def new_Device_def simulated_def serving_def
        fastXfer_def)
  have p: "sftp empty_file = Some SFTPWrapper
      \<and> sftp_fastPut simulated ''f'' ''/f'' None (client empty_file) = (([], None), client empty_file)"
    by (simp add: empty_file_def connected_to_def new_Device_def simulated_def serving_def
        fastXfer_def)
  from zero_total_progress [where d = empty_file and s = SFTPWrapper and T = simulated
      and remote = "''/f''" and local = "''f''" and steps = "[]" and err = None
      and w = "client empty_file" and fl = id and local' = "''f''" and remote' = "''/f''"
      and md = None and steps' = "[]" and err' = None and w' = "client empty_file"
      and transferred = 0 and k = 0] g p
  show ?thesis by simp
qed

lemma percentage_bounds:
  assumes mono: "\<forall>x y. x \<le> y \<longrightarrow> fl x \<le> fl y" and f0: "fl 0 = 0" and f1: "fl 1 = 1"
    and f100: "fl 100 = 100" and N: "0 < N" and t: "t \<le> N"
  shows "0 \<le> \<lfloor>fl (fl (of_nat t / of_nat N) * 100) + 1 / 2 :: rat\<rfloor>"
    and "\<lfloor>fl (fl (of_nat t / of_nat N) * 100) + 1 / 2\<rfloor> \<le> 100"
proof -
  let ?q = "of_nat t / of_nat N :: rat"
  have q0: "0 \<le> ?q" by simp
  have q1: "?q \<le> 1" using N t by simp
  have a0: "0 \<le> fl ?q" using mono q0 f0 by metis
  have a1: "fl ?q \<le> 1" using mono q1 f1 by metis
  have b0: "0 \<le> fl ?q * 100" using a0 by simp
  have b1: "fl ?q * 100 \<le> 100" using a1 by simp
  have c0: "0 \<le> fl (fl ?q * 100)" using mono b0 f0 by metis
  have c1: "fl (fl ?q * 100) \<le> 100" using mono b1 f100 by metis
  show "0 \<le> \<lfloor>fl (fl ?q * 100) + 1 / 2\<rfloor>" using c0 by simp
  have "fl (fl ?q * 100) + 1 / 2 < 101" using c1 by simp
  then have "\<lfloor>fl (fl ?q * 100) + 1 / 2\<rfloor> < 101" by (simp add: floor_less_iff)
  then show "\<lfloor>fl (fl ?q * 100) + 1 / 2\<rfloor> \<le> 100" by simp
qed

lemma percentage_mono:
  assumes mono: "\<forall>x y. x \<le> y \<longrightarrow> fl x \<le> fl y" and N: "0 < N" and t: "t1 \<le> t2"
  shows "\<lfloor>fl (fl (of_nat t1 / of_nat N) * 100) + 1 / 2\<rfloor>
       \<le> \<lfloor>fl (fl (of_nat (t2::nat) / of_nat (N::nat)) * 100) + 1 / 2 :: rat\<rfloor>"
proof -
  have "(of_nat t1 / of_nat N :: rat) \<le> of_nat t2 / of_nat N"
    using N t by (simp add: divide_right_mono)
  then have "fl (of_nat t1 / of_nat N) \<le> fl (of_nat t2 / of_nat N)" using mono by blast
  then have "fl (of_nat t1 / of_nat N) * 100 \<le> fl (of_nat t2 / of_nat N) * 100" by simp
  then have "fl (fl (of_nat t1 / of_nat N) * 100) \<le> fl (fl (of_nat t2 / of_nat N) * 100)"
    using mono by blast
  then show ?thesis by (simp add: floor_mono)
qed

lemma percentage_complete:
  assumes f1: "fl 1 = 1" and f100: "fl 100 = 100" and N: "0 < (N::nat)"
  shows "\<lfloor>fl (fl (of_nat N / of_nat N) * 100) + 1 / 2 :: rat\<rfloor> = 100"
proof -
  have "(of_nat N / of_nat N :: rat) = 1" using N by simp
  then have "fl (fl (of_nat N / of_nat N) * 100) + 1 / 2 = 100 + 1 / 2" using f1 f100 by simp
  moreover have "\<lfloor>100 + 1 / 2 :: rat\<rfloor> = 100" by (rule floor_unique) simp_all
  ultimately show ?thesis by simp
qed

text \<open>
  For reports that all carry the total \<open>N \<ge> 1\<close>, with the bytes moved in order and never
  above \<open>N\<close>.
\<close>

lemma progress_of_reports:
  assumes mono: "\<forall>x y. x \<le> y \<longrightarrow> fl x \<le> fl y" and f0: "fl 0 = 0" and f1: "fl 1 = 1"
    and f100: "fl 100 = 100"
    and N: "0 < N"
    and steps: "\<forall>r \<in> set steps. fst r \<le> N \<and> snd (snd r) = N"
    and ordered: "sorted (map fst steps)"
    and open_sftp: "sftp d = Some s"
    and fastGet: "sftp_fastGet T remote local (client d) = ((steps, err), w)"
    and fastPut: "sftp_fastPut T local' remote' md (client d) = ((steps, err'), w')"
  shows "\<exists>ks. snd (fst (get fl T remote local True d)) = map Integer ks
            \<and> snd (fst (put fl T local' remote' md True d)) = map Integer ks
            \<and> ks = map (\<lambda>r. \<lfloor>fl (fl (of_nat (fst r) / of_nat N) * 100) + 1 / 2\<rfloor>) steps
            \<and> (\<forall>k \<in> set ks. 0 \<le> k \<and> k \<le> 100)
            \<and> sorted ks
            \<and> (steps \<noteq> [] \<and> fst (last steps) = N \<longrightarrow> last ks = 100)"
proof -
  let ?f = "\<lambda>r :: nat \<times> nat \<times> nat. \<lfloor>fl (fl (of_nat (fst r) / of_nat N) * 100) + 1 / 2\<rfloor>"
  let ?ks = "map ?f steps"
  have pct: "map (\<lambda>r. percentage fl (fst r) (snd (snd r))) steps = map Integer ?ks"
    using steps N by (simp add: percentage_def)
  have g: "snd (fst (get fl T remote local True d)) = map Integer ?ks"
    using get_callbacks [OF open_sftp fastGet] pct by simp
  have p: "snd (fst (put fl T local' remote' md True d)) = map Integer ?ks"
    using put_callbacks [OF open_sftp fastPut] pct by simp
  have range: "\<forall>k \<in> set ?ks. 0 \<le> k \<and> k \<le> 100"
    using percentage_bounds [OF mono f0 f1 f100 N] steps by auto
  have "sorted_wrt (\<lambda>a b. fst a \<le> fst b) steps" using ordered by (simp add: sorted_map)
  then have "sorted_wrt (\<lambda>a b. ?f a \<le> ?f b) steps"
    by (rule sorted_wrt_mono_rel [rotated]) (use percentage_mono [OF mono N] in blast)
  then have srt: "sorted ?ks" by (simp add: sorted_map)
  have fin: "steps \<noteq> [] \<and> fst (last steps) = N \<longrightarrow> last ?ks = 100"
    using percentage_complete [OF f1 f100 N] by (auto simp: last_map)
  from g p range srt fin show ?thesis by blast
qed

text \<open>What the library reports is of that kind.\<close>

lemma fastXfer_steps_range:
  "r \<in> set (fastXfer_steps fsize sofar chunks)
   \<Longrightarrow> sofar \<le> fst r \<and> fst r \<le> fsize \<and> snd (snd r) = fsize"
proof (induction chunks arbitrary: sofar)
  case Nil
  then show ?case by simp
next
  case (Cons c chunks)
  show ?case
  proof (cases "fsize \<le> sofar")
    case True
    then show ?thesis using Cons.prems by simp
  next
    case False
    then have "r = (sofar + min c (fsize - sofar), min c (fsize - sofar), fsize)
        \<or> r \<in> set (fastXfer_steps fsize (sofar + min c (fsize - sofar)) chunks)"
      using Cons.prems by simp
    then show ?thesis
    proof
      assume "r = (sofar + min c (fsize - sofar), min c (fsize - sofar), fsize)"
      then show ?thesis using False by auto
    next
      assume "r \<in> set (fastXfer_steps fsize (sofar + min c (fsize - sofar)) chunks)"
      from Cons.IH [OF this] show ?thesis by auto
    qed
  qed
qed

lemma fastXfer_steps_sorted: "sorted (map fst (fastXfer_steps fsize sofar chunks))"
proof (induction chunks arbitrary: sofar)
  case Nil
  show ?case by simp
next
  case (Cons c chunks)
  show ?case
    using Cons.IH [of "sofar + min c (fsize - sofar)"]
      fastXfer_steps_range [of _ fsize "sofar + min c (fsize - sofar)" chunks]
    by auto
qed

lemma fastXfer_steps_complete:
  "sofar < fsize \<Longrightarrow> fsize \<le> sofar + sum_list chunks
   \<Longrightarrow> fastXfer_steps fsize sofar chunks \<noteq> []
       \<and> fst (last (fastXfer_steps fsize sofar chunks)) = fsize"
proof (induction chunks arbitrary: sofar)
  case Nil
  then show ?case by simp
next
  case (Cons c chunks)
  show ?case
  proof (cases "fsize - sofar \<le> c")
    case True
    then have m: "sofar + min c (fsize - sofar) = fsize" using Cons.prems(1) by simp
    have "fastXfer_steps fsize fsize chunks = []" by (cases chunks) simp_all
    then show ?thesis using Cons.prems(1) m by simp
  next
    case False
    then have m: "min c (fsize - sofar) = c" by simp
    have "fastXfer_steps fsize (sofar + c) chunks \<noteq> []
        \<and> fst (last (fastXfer_steps fsize (sofar + c) chunks)) = fsize"
      using Cons.IH [of "sofar + c"] Cons.prems False by simp
    then show ?thesis using Cons.prems(1) m by simp
  qed
qed

text \<open>
  C8. Let the rounding \<open>fl\<close> of the double arithmetic be monotone and leave 0, 1 and 100 as
  they are (IEEE rounding to nearest does). For every transfer via \<open>get\<close> or \<open>put\<close>, of a
  file of any size read in any chunks, with the reports the library makes, the callback
  receives the integers \<^verbatim>\<open>Math.round(transferred / total * 100)\<close>; each lies between 0 and 100,
  they never decrease, and when a file of at least one byte has arrived in full the last of
  them is 100.
\<close>

theorem progress_percentage:
  assumes mono: "\<forall>x y. x \<le> y \<longrightarrow> fl x \<le> fl y" and f0: "fl 0 = 0" and f1: "fl 1 = 1"
    and f100: "fl 100 = 100"
    and open_sftp: "sftp d = Some s"
    and fastGet: "sftp_fastGet T remote local (client d) = ((fastXfer fsize chunks, err), w)"
    and fastPut: "sftp_fastPut T local' remote' md (client d) = ((fastXfer fsize chunks, err'), w')"
  shows "\<exists>ks. snd (fst (get fl T remote local True d)) = map Integer ks
            \<and> snd (fst (put fl T local' remote' md True d)) = map Integer ks
            \<and> ks = map (\<lambda>r. \<lfloor>fl (fl (of_nat (fst r) / of_nat (snd (snd r))) * 100) + 1 / 2\<rfloor>)
                       (fastXfer fsize chunks)
            \<and> (\<forall>k \<in> set ks. 0 \<le> k \<and> k \<le> 100)
            \<and> sorted ks
            \<and> (1 \<le> fsize \<and> fsize \<le> sum_list chunks \<longrightarrow> ks \<noteq> [] \<and> last ks = 100)"
proof (cases "fsize = 0")
  case True
  then have e: "fastXfer fsize chunks = []" by (cases chunks) (simp_all add: fastXfer_def)
  have "snd (fst (get fl T remote local True d)) = []"
    using get_callbacks [OF open_sftp fastGet] e by simp
  moreover have "snd (fst (put fl T local' remote' md True d)) = []"
    using put_callbacks [OF open_sftp fastPut] e by simp
  ultimately show ?thesis using e True by simp
next
  case False
  let ?steps = "fastXfer fsize chunks"
  have N: "0 < fsize" using False by simp
  have st: "?steps = fastXfer_steps fsize 0 chunks" by (simp add: fastXfer_def)
  have steps: "\<forall>r \<in> set ?steps. fst r \<le> fsize \<and> snd (snd r) = fsize"
    using fastXfer_steps_range [of _ fsize 0 chunks] st by auto
  have ordered: "sorted (map fst ?steps)" using fastXfer_steps_sorted st by simp
  from progress_of_reports [OF mono f0 f1 f100 N steps ordered open_sftp fastGet fastPut]
  obtain ks where ks: "snd (fst (get fl T remote local True d)) = map Integer ks
            \<and> snd (fst (put fl T local' remote' md True d)) = map Integer ks
            \<and> ks = map (\<lambda>r. \<lfloor>fl (fl (of_nat (fst r) / of_nat fsize) * 100) + 1 / 2\<rfloor>) ?steps
            \<and> (\<forall>k \<in> set ks. 0 \<le> k \<and> k \<le> 100)
            \<and> sorted ks
            \<and> (?steps \<noteq> [] \<and> fst (last ?steps) = fsize \<longrightarrow> last ks = 100)" ..
  have same: "map (\<lambda>r. \<lfloor>fl (fl (of_nat (fst r) / of_nat fsize) * 100) + 1 / 2\<rfloor>) ?steps
      = map (\<lambda>r. \<lfloor>fl (fl (of_nat (fst r) / of_nat (snd (snd r))) * 100) + 1 / 2\<rfloor>) ?steps"
    using steps by simp
  have fin: "1 \<le> fsize \<and> fsize \<le> sum_list chunks \<longrightarrow> ks \<noteq> [] \<and> last ks = 100"
    using fastXfer_steps_complete [of 0 fsize chunks] st ks by auto
  from ks same fin show ?thesis by auto
qed

text \<open>Four bytes in chunks of 1, 1 and 2, with exact arithmetic: 25, 50, 100.\<close>

theorem progress_percentage_witness:
  "snd (fst (get id simulated ''/f'' ''f'' True four_bytes)) = [Integer 25, Integer 50, Integer 100]
   \<and> snd (fst (put id simulated ''f'' ''/f'' None True four_bytes)) = [Integer 25, Integer 50, Integer 100]"
proof -
  have mono: "\<forall>x y :: rat. x \<le> y \<longrightarrow> id x \<le> id y" by simp
  have open_sftp: "sftp four_bytes = Some SFTPWrapper"
    by (simp add: four_bytes_def connected_to_def)
  have fastGet: "sftp_fastGet simulated ''/f'' ''f'' (client four_bytes)
      = ((fastXfer 4 [1, 1, 2], None), client four_bytes)"
    by (simp add: four_bytes_def connected_to_def new_Device_def simulated_def serving_def)
  have fastPut: "sftp_fastPut simulated ''f'' ''/f'' None (client four_bytes)
      = ((fastXfer 4 [1, 1, 2], None), client four_bytes)"
    by (simp add: four_bytes_def connected_to_def new_Device_def simulated_def serving_def)
  have ks: "map (\<lambda>r. \<lfloor>id (id (of_nat (fst r) / of_nat (snd (snd r))) * 100) + 1 / 2 :: rat\<rfloor>)
      (fastXfer 4 [1, 1, 2]) = [25, 50, 100]"
    by code_simp
  from progress_percentage [of id four_bytes SFTPWrapper simulated "''/f''" "''f''" 4 "[1, 1, 2]"
      None "client four_bytes" "''f''" "''/f''" None None "client four_bytes",
      OF mono _ _ _ open_sftp fastGet fastPut]
  obtain ks' where g: "snd (fst (get id simulated ''/f'' ''f'' True four_bytes)) = map Integer ks'"
    and p: "snd (fst (put id simulated ''f'' ''/f'' None True four_bytes)) = map Integer ks'"
    and k: "ks' = map (\<lambda>r. \<lfloor>id (id (of_nat (fst r) / of_nat (snd (snd r))) * 100) + 1 / 2 :: rat\<rfloor>)
      (fastXfer 4 [1, 1, 2])"
    by auto
  from k ks have "ks' = [25, 50, 100]" by (rule trans)
  then show ?thesis using g p by simp
qed

subsection \<open>Connecting and disconnecting\<close>

lemmas scenario_defs =
  simulated_def serving_def connected_to_def new_Device_def getLocalDnssdService_def
  robot_home_def idle_def unreachable_def timed_out_def

lemmas device_defs =
  connect_def connectClient_def connectAddress_def getSftp_def connect_catch_def disconnect_def
  client_on_close_def stat_def homeDirectoryPath_def username_def fire_def invoke_def
  isConnecting_def isConnected_def homeDirectoryAttr_def

lemmas server_defs =
  server_stat_def server_mkdir_def server_readdir_def server_unlink_def server_rmdir_def
  server_chmod_def node_def no_such_file_def failure_def

text \<open>
  C1 fails at the first step. When the handshake is rejected, \<open>connect\<close> rejects with the
  originating error, but the cleanup does not run: \<^verbatim>\<open>isConnecting\<close> stays true and \<open>connect\<close>
  fires no disconnected event. A \<^verbatim>\<open>close\<close> event of the client afterwards fires the event,
  and still leaves \<^verbatim>\<open>isConnecting\<close> true.
\<close>

theorem connect_handshake_failure:
  "fst (connect simulated ''linux'' unreachable) = Some timed_out
   \<and> isConnecting (snd (connect simulated ''linux'' unreachable))
   \<and> fired (snd (connect simulated ''linux'' unreachable)) = [WillConnect]
   \<and> calls (snd (connect simulated ''linux'' unreachable)) = [ClientConnect ''ev3dev.local'']
   \<and> isConnecting (client_on_close (snd (connect simulated ''linux'' unreachable)))
   \<and> fired (client_on_close (snd (connect simulated ''linux'' unreachable))) = [WillConnect, DidDisconnect]"
  by (simp add: scenario_defs device_defs Let_def)

text \<open>The same for every transport whose handshake is rejected.\<close>

lemma connect_rejected_by_handshake:
  assumes "fst (client_connect T (connectAddress platform (service d)) (client d)) = Some err"
  shows "fst (connect T platform d) = Some err"
    and "isConnecting (snd (connect T platform d))"
    and "fired (snd (connect T platform d)) = fired d @ [WillConnect]"
  using assms
  by (auto simp: connect_def connectClient_def fire_def invoke_def isConnecting_def Let_def
      split: prod.splits option.splits)

text \<open>
  The two later steps are served by the \<^verbatim>\<open>catch\<close> block: a rejection of the SFTP
  subsystem or of the \<open>stat\<close> of the home directory ends in the idle state, with the SFTP
  session closed and one disconnected event.
\<close>

lemma disconnect_fields:
  "sftp (disconnect d) = None"
  "sock_writable (disconnect d) = False"
  "priv_isConnected (disconnect d) = False"
  "priv_isConnecting (disconnect d) = priv_isConnecting d"
  "priv_homeDirectoryAttr (disconnect d) = priv_homeDirectoryAttr d"
  "fired (disconnect d) = fired d @ [DidDisconnect]"
  by (simp_all add: disconnect_def fire_def invoke_def Let_def split: option.splits)

lemma stat_fields:
  "priv_isConnecting (snd (stat T p d)) = priv_isConnecting d"
  "priv_isConnected (snd (stat T p d)) = priv_isConnected d"
  "fired (snd (stat T p d)) = fired d"
  "sftp (snd (stat T p d)) = sftp d"
  by (simp_all add: stat_def invoke_def split: option.splits prod.splits)

lemma connect_rejected_inside_try:
  assumes rej: "fst (connect T platform d) = Some err"
    and ready: "fst (client_connect T (connectAddress platform (service d)) (client d)) = None"
  shows "priv_isConnecting (snd (connect T platform d)) = False
    \<and> priv_isConnected (snd (connect T platform d)) = False
    \<and> sftp (snd (connect T platform d)) = None
    \<and> fired (snd (connect T platform d)) = fired d @ [WillConnect, DidDisconnect]"
proof -
  let ?d1 = "fire WillConnect (d\<lparr>priv_isConnecting := True\<rparr>)"
  obtain w where cc: "client_connect T (connectAddress platform (service d)) (client d) = (None, w)"
    using ready by (cases "client_connect T (connectAddress platform (service d)) (client d)") simp
  let ?d2 = "(invoke (ClientConnect (connectAddress platform (service d))) w ?d1)
      \<lparr>sock_writable := True\<rparr>"
  have c2: "connectClient T platform ?d1 = (None, ?d2)"
    using cc by (simp add: connectClient_def fire_def Let_def)
  have f2: "fired ?d2 = fired d @ [WillConnect]" by (simp add: fire_def invoke_def)
  show ?thesis
  proof (cases "getSftp T ?d2")
    case (Pair r d3)
    have f3: "fired d3 = fired d @ [WillConnect]"
      using Pair f2
      by (auto simp: getSftp_def invoke_def fire_def split: prod.splits option.splits if_splits)
    show ?thesis
    proof (cases r)
      case (Inl e)
      then have "connect T platform d = connect_catch e d3"
        using c2 Pair by (simp add: connect_def Let_def)
      then show ?thesis using f3 by (simp add: connect_catch_def disconnect_fields)
    next
      case (Inr s)
      let ?d4 = "d3\<lparr>sftp := Some s\<rparr>"
      obtain r5 d5 where st: "stat T (homeDirectoryPath ?d4) ?d4 = (r5, d5)"
        by (cases "stat T (homeDirectoryPath ?d4) ?d4")
      have f5: "fired d5 = fired d @ [WillConnect]"
        using stat_fields(3) [of T "homeDirectoryPath ?d4" ?d4] st f3 by simp
      show ?thesis
      proof (cases r5)
        case (Inl e)
        then have "connect T platform d = connect_catch e d5"
          using c2 Pair Inr st by (simp add: connect_def Let_def)
        then show ?thesis using f5 by (simp add: connect_catch_def disconnect_fields)
      next
        case (Inr attr)
        then have "fst (connect T platform d) = None"
          using c2 Pair \<open>r = Inr s\<close> st by (simp add: connect_def Let_def)
        then show ?thesis using rej by simp
      qed
    qed
  qed
qed

text \<open>
  C2 fails in \<open>disconnect\<close>: it closes the SFTP session and clears \<^verbatim>\<open>_isConnected\<close>, but it
  leaves \<^verbatim>\<open>_homeDirectoryAttr\<close> as it is. After a successful \<open>connect\<close> and a \<open>disconnect\<close>
  the device is idle without an SFTP session, and \<^verbatim>\<open>homeDirectoryAttr\<close> still answers with the
  attributes of the last connection.
\<close>

theorem disconnect_keeps_homeDirectoryAttr:
  "homeDirectoryAttr (disconnect d) = homeDirectoryAttr d
   \<and> fst (connect simulated ''linux'' idle) = None
   \<and> isConnected (snd (connect simulated ''linux'' idle))
   \<and> \<not> isConnected (disconnect (snd (connect simulated ''linux'' idle)))
   \<and> \<not> isConnecting (disconnect (snd (connect simulated ''linux'' idle)))
   \<and> sftp (disconnect (snd (connect simulated ''linux'' idle))) = None
   \<and> homeDirectoryAttr (disconnect (snd (connect simulated ''linux'' idle))) = Inr (Stats True)"
proof -
  have "homeDirectoryAttr (disconnect d) = homeDirectoryAttr d"
    by (simp add: homeDirectoryAttr_def disconnect_fields)
  moreover have "connect simulated ''linux'' idle = (None, (connected_to robot_home)\<lparr>fired := [WillConnect, DidConnect], calls := [ClientConnect ''ev3dev.local'', ClientSftp, SftpStat ''/home/robot'']\<rparr>)"
    by (simp add: scenario_defs device_defs server_defs Let_def)
  ultimately show ?thesis
    by (simp add: disconnect_fields homeDirectoryAttr_def isConnected_def isConnecting_def
        connected_to_def new_Device_def)
qed


subsection \<open>Operations without an SFTP session\<close>

lemma split_not_Nil: "split s \<noteq> []"
  by (induction s) (auto split: list.splits)

lemma mkdir_p_loop_not_connected:
  "sftp d = None \<Longrightarrow> names \<noteq> [] \<Longrightarrow> mkdir_p_loop T part names d = (Some not_connected, d)"
  by (cases names) (simp_all add: mkdir_p_try_def stat_def not_connected_def)

lemma mkdir_p_not_connected:
  assumes "sftp d = None" and "isAbsolute dirPath"
  shows "mkdir_p T dirPath d = (Some not_connected, d)"
proof -
  obtain cs where "dirPath = CHR ''/'' # cs"
    using assms(2) by (auto simp: isAbsolute_def split: list.splits)
  then have "tl (split dirPath) = split cs" by simp
  then show ?thesis
    using assms split_not_Nil [of cs] by (simp add: mkdir_p_def mkdir_p_loop_not_connected)
qed

text \<open>
  C6. On a device without an SFTP session every filesystem operation (\<open>chmod\<close>, \<open>mkdir\<close>,
  \<open>ls\<close>, \<open>stat\<close>, \<open>rm\<close>, \<open>rmdir\<close>, \<open>get\<close>, \<open>put\<close>, and with them \<open>rm_rf\<close> and \<open>mkdir_p\<close> of an
  absolute path) rejects with \<^verbatim>\<open>Error('Not connected')\<close> and leaves the device as it was: it
  has invoked nothing and sent nothing. On a device whose client holds no socket every exec
  operation (\<open>exec\<close>, \<open>createExecObservable\<close>, \<open>shell\<close>) rejects with the same error, thrown by
  the client before anything is sent, and leaves the device as it was. The idle states are
  of that kind: the device as constructed, and every device after \<open>disconnect\<close>, has neither
  an SFTP session nor a socket.
\<close>

theorem not_connected_operations:
  "(sftp d = None \<longrightarrow>
      chmod T p m d = (Some (Error ''Not connected''), d)
      \<and> mkdir T p d = (Some (Error ''Not connected''), d)
      \<and> ls T p d = (Inl (Error ''Not connected''), d)
      \<and> stat T p d = (Inl (Error ''Not connected''), d)
      \<and> rm T p d = (Some (Error ''Not connected''), d)
      \<and> rmdir T p d = (Some (Error ''Not connected''), d)
      \<and> get fl T remote local reportPercentage d = ((Some (Error ''Not connected''), []), d)
      \<and> put fl T local remote md reportPercentage d = ((Some (Error ''Not connected''), []), d)
      \<and> rm_rf T (Suc depth) p d = (Settled (Some (Error ''Not connected'')), d)
      \<and> (isAbsolute p \<longrightarrow> mkdir_p T p d = (Some (Error ''Not connected''), d)))
   \<and> (\<not> sock_writable d \<longrightarrow>
      exec T command d = (Some (Error ''Not connected''), d)
      \<and> createExecObservable T command d = (Some (Error ''Not connected''), d)
      \<and> shell T d = (Some (Error ''Not connected''), d))
   \<and> sftp (new_Device svc world) = None \<and> \<not> sock_writable (new_Device svc world)
   \<and> \<not> isConnected (new_Device svc world) \<and> \<not> isConnecting (new_Device svc world)
   \<and> sftp (disconnect d) = None \<and> \<not> sock_writable (disconnect d)
   \<and> \<not> isConnected (disconnect d)"
  by (simp add: chmod_def mkdir_def ls_def stat_def rm_def rmdir_def get_def put_def
      mkdir_p_not_connected exec_def createExecObservable_def shell_def not_connected_def
      new_Device_def isConnected_def isConnecting_def disconnect_fields)

text \<open>
  The device that has never connected, and the device that has connected and disconnected.
\<close>

theorem not_connected_operations_witness:
  "stat simulated ''/home/robot'' idle = (Inl (Error ''Not connected''), idle)
   \<and> rm_rf simulated (Suc 0) ''/home/robot'' idle = (Settled (Some (Error ''Not connected'')), idle)
   \<and> mkdir_p simulated ''/home/robot/a'' idle = (Some (Error ''Not connected''), idle)
   \<and> get id simulated ''/home/robot/f'' ''f'' True idle = ((Some (Error ''Not connected''), []), idle)
   \<and> exec simulated ''ls'' idle = (Some (Error ''Not connected''), idle)
   \<and> exec simulated ''ls'' (disconnect (snd (connect simulated ''linux'' idle)))
       = (Some (Error ''Not connected''), disconnect (snd (connect simulated ''linux'' idle)))
   \<and> stat simulated ''/home/robot'' (disconnect (snd (connect simulated ''linux'' idle)))
       = (Inl (Error ''Not connected''), disconnect (snd (connect simulated ''linux'' idle)))"
proof -
  let ?after = "disconnect (snd (connect simulated ''linux'' idle))"
  have s: "sftp idle = None" and w: "\<not> sock_writable idle"
    by (simp_all add: idle_def new_Device_def)
  have a: "isAbsolute ''/home/robot/a''" by (simp add: isAbsolute_def)
  have s': "sftp ?after = None" and w': "\<not> sock_writable ?after"
    by (simp_all add: disconnect_fields)
  from not_connected_operations [where d = idle and T = simulated and p = "''/home/robot''"
      and fl = id and remote = "''/home/robot/f''" and local = "''f''" and reportPercentage = True
      and depth = 0 and command = "''ls''" and m = "ModeNumber 0" and md = None
      and svc = getLocalDnssdService and world = robot_home] s w
  have 1: "stat simulated ''/home/robot'' idle = (Inl (Error ''Not connected''), idle)
      \<and> rm_rf simulated (Suc 0) ''/home/robot'' idle = (Settled (Some (Error ''Not connected'')), idle)
      \<and> get id simulated ''/home/robot/f'' ''f'' True idle = ((Some (Error ''Not connected''), []), idle)
      \<and> exec simulated ''ls'' idle = (Some (Error ''Not connected''), idle)"
    by blast
  from not_connected_operations [where d = idle and T = simulated and p = "''/home/robot/a''"
      and fl = id and remote = "''/home/robot/f''" and local = "''f''" and reportPercentage = True
      and depth = 0 and command = "''ls''" and m = "ModeNumber 0" and md = None
      and svc = getLocalDnssdService and world = robot_home] s a
  have 2: "mkdir_p simulated ''/home/robot/a'' idle = (Some (Error ''Not connected''), idle)"
    by blast
  from not_connected_operations [where d = ?after and T = simulated and p = "''/home/robot''"
      and fl = id and remote = "''/home/robot/f''" and local = "''f''" and reportPercentage = True
      and depth = 0 and command = "''ls''" and m = "ModeNumber 0" and md = None
      and svc = getLocalDnssdService and world = robot_home] s' w'
  have 3: "exec simulated ''ls'' ?after = (Some (Error ''Not connected''), ?after)
      \<and> stat simulated ''/home/robot'' ?after = (Inl (Error ''Not connected''), ?after)"
    by blast
  from 1 2 3 show ?thesis by blast
qed

subsection \<open>The invocations only grow\<close>

lemma prefix_calls_invoke: "prefix (calls d) (calls (invoke c w d))"
  by (simp add: invoke_def)

lemma prefix_calls_stat: "prefix (calls d) (calls (snd (stat T p d)))"
  by (simp add: stat_def invoke_def split: option.splits prod.splits)

lemma prefix_calls_ls: "prefix (calls d) (calls (snd (ls T p d)))"
  by (simp add: ls_def invoke_def split: option.splits prod.splits)

lemma prefix_calls_rm: "prefix (calls d) (calls (snd (rm T p d)))"
  by (simp add: rm_def invoke_def split: option.splits prod.splits)

lemma prefix_calls_rmdir: "prefix (calls d) (calls (snd (rmdir T p d)))"
  by (simp add: rmdir_def invoke_def split: option.splits prod.splits)

lemma prefix_calls_mkdir: "prefix (calls d) (calls (snd (mkdir T p d)))"
  by (simp add: mkdir_def invoke_def split: option.splits prod.splits)

lemma prefix_calls_rm_rf:
  "prefix (calls d) (calls (snd (rm_rf T depth p d)))"
  "prefix (calls d) (calls (snd (rm_rf_each T depth p entries d)))"
proof (induction T depth p d and T depth p entries d rule: rm_rf_rm_rf_each.induct)
  case (1 T p d)
  show ?case by simp
next
  case (2 T depth p d)
  obtain r d1 where st: "stat T p d = (r, d1)" by (cases "stat T p d")
  have p1: "prefix (calls d) (calls d1)" using prefix_calls_stat [of d T p] st by simp
  show ?case
  proof (cases r)
    case (Inl err)
    then show ?thesis using st p1 by simp
  next
    case (Inr stats)
    show ?thesis
    proof (cases "isDirectory stats")
      case False
      then show ?thesis
        using st Inr p1 prefix_calls_rm [of d1 T p]
        by (auto simp: split_def intro: prefix_order.trans)
    next
      case True
      obtain r2 d2 where l: "ls T p d1 = (r2, d2)" by (cases "ls T p d1")
      have p2: "prefix (calls d) (calls d2)"
        using prefix_calls_ls [of d1 T p] l p1 by (auto intro: prefix_order.trans)
      show ?thesis
      proof (cases r2)
        case (Inl err)
        then show ?thesis using st Inr True l p2 by simp
      next
        case (Inr entries)
        obtain r3 d3 where e: "rm_rf_each T depth p entries d2 = (r3, d3)"
          by (cases "rm_rf_each T depth p entries d2")
        have "prefix (calls d2) (calls d3)"
          using "2.IH" [OF st [symmetric] \<open>r = Inr stats\<close> True l [symmetric] Inr] e by simp
        then have p3: "prefix (calls d) (calls d3)" using p2 by (auto intro: prefix_order.trans)
        have p4: "prefix (calls d) (calls (snd (rmdir T p d3)))"
          using p3 prefix_calls_rmdir [of d3 T p] by (auto intro: prefix_order.trans)
        show ?thesis
          using st \<open>r = Inr stats\<close> True l Inr e p3 p4
          by (auto simp: split_def split: promise.splits option.splits)
      qed
    qed
  qed
next
  case (3 T depth p d)
  show ?case by simp
next
  case (4 T depth p filename entries d)
  obtain r1 d1 where c: "rm_rf T depth (p @ ''/'' @ filename) d = (r1, d1)"
    by (cases "rm_rf T depth (p @ ''/'' @ filename) d")
  have p1: "prefix (calls d) (calls d1)" using "4.IH"(1) c by simp
  show ?case
  proof (cases "r1 = Settled None")
    case True
    then have "prefix (calls d1) (calls (snd (rm_rf_each T depth p entries d1)))"
      using "4.IH"(2) [OF c [symmetric]] by simp
    then show ?thesis using c True p1 by (auto intro: prefix_order.trans)
  next
    case False
    then show ?thesis using c p1 by (auto split: promise.splits option.splits)
  qed
qed

subsection \<open>Absolute paths\<close>

lemma rm_rf_after_stat:
  "prefix (calls (snd (stat T p d))) (calls (snd (rm_rf T (Suc depth) p d)))"
proof -
  obtain r d1 where st: "stat T p d = (r, d1)" by (cases "stat T p d")
  show ?thesis
  proof (cases r)
    case (Inl err)
    then show ?thesis using st by simp
  next
    case (Inr stats)
    show ?thesis
    proof (cases "isDirectory stats")
      case False
      then show ?thesis
        using st Inr prefix_calls_rm [of d1 T p] by (simp add: split_def)
    next
      case True
      obtain r2 d2 where l: "ls T p d1 = (r2, d2)" by (cases "ls T p d1")
      have p2: "prefix (calls d1) (calls d2)" using prefix_calls_ls [of d1 T p] l by simp
      show ?thesis
      proof (cases r2)
        case (Inl err)
        then show ?thesis using st Inr True l p2 by simp
      next
        case (Inr entries)
        obtain r3 d3 where e: "rm_rf_each T depth p entries d2 = (r3, d3)"
          by (cases "rm_rf_each T depth p entries d2")
        have "prefix (calls d2) (calls d3)"
          using prefix_calls_rm_rf(2) [of d2 T depth p entries] e by simp
        then have p3: "prefix (calls d1) (calls d3)" using p2 by (auto intro: prefix_order.trans)
        have p4: "prefix (calls d1) (calls (snd (rmdir T p d3)))"
          using p3 prefix_calls_rmdir [of d3 T p] by (auto intro: prefix_order.trans)
        show ?thesis
          using st \<open>r = Inr stats\<close> True l Inr e p3 p4
          by (auto simp: split_def split: promise.splits option.splits)
      qed
    qed
  qed
qed

text \<open>
  C7, amended. \<open>mkdir_p\<close> checks its path first: for a path that is not absolute it rejects
  with \<^verbatim>\<open>Error("The supplied file path must be absolute.")\<close> and leaves the device as it was,
  so it has invoked nothing. \<open>rm_rf\<close> has no such check: with an SFTP session open, its first
  step is the \<^verbatim>\<open>stat\<close> request for the path as given.
\<close>

theorem mkdir_p_requires_absolute:
  "(\<not> isAbsolute dirPath
      \<longrightarrow> mkdir_p T dirPath d = (Some (Error ''The supplied file path must be absolute.''), d))
   \<and> (sftp d = Some s
      \<longrightarrow> prefix (calls d @ [SftpStat p]) (calls (snd (rm_rf T (Suc depth) p d))))"
proof -
  have "sftp d = Some s \<Longrightarrow> calls (snd (stat T p d)) = calls d @ [SftpStat p]"
    by (simp add: stat_def invoke_def split_def)
  then show ?thesis
    using rm_rf_after_stat [of T p d depth] by (auto simp: mkdir_p_def must_be_absolute_def)
qed

text \<open>A relative path for \<open>mkdir_p\<close>, and \<open>rm_rf\<close> on a connected device.\<close>

theorem mkdir_p_requires_absolute_witness:
  "mkdir_p simulated ''relative/path'' (connected_to robot_home)
     = (Some (Error ''The supplied file path must be absolute.''), connected_to robot_home)
   \<and> prefix [SftpStat ''/home/robot/a''] (calls (snd (rm_rf simulated 1 ''/home/robot/a'' (connected_to robot_home))))"
proof -
  have r: "\<not> isAbsolute ''relative/path''" by (simp add: isAbsolute_def)
  have s: "sftp (connected_to robot_home) = Some SFTPWrapper" by (simp add: connected_to_def)
  have c: "calls (connected_to robot_home) = []" by (simp add: connected_to_def new_Device_def)
  from mkdir_p_requires_absolute [of "''relative/path''" simulated "connected_to robot_home" SFTPWrapper "''/home/robot/a''" 0] r s c
  show ?thesis by simp
qed

text \<open>
  C7 as stated fails for \<open>rm_rf\<close>: a relative path goes to the server, and the rejection is
  the server's.
\<close>

theorem rm_rf_relative_path_counterexample:
  "fst (rm_rf simulated 1 ''relative/path'' (connected_to robot_home))
     = Settled (Some (TransportError (Some 2) ''No such file''))
   \<and> calls (snd (rm_rf simulated 1 ''relative/path'' (connected_to robot_home)))
     = [SftpStat ''relative/path'']"
  by (simp add: scenario_defs stat_def invoke_def server_defs NO_SUCH_FILE_def)

subsection \<open>Recursive create\<close>

lemma stat_paths_simps [simp]:
  "stat_paths [] = []"
  "stat_paths (SftpStat p # cs) = p # stat_paths cs"
  "stat_paths (SftpMkdir p # cs) = stat_paths cs"
  "stat_paths (cs @ cs') = stat_paths cs @ stat_paths cs'"
  by (simp_all add: stat_paths_def)

lemma mkdir_paths_simps [simp]:
  "mkdir_paths [] = []"
  "mkdir_paths (SftpStat p # cs) = mkdir_paths cs"
  "mkdir_paths (SftpMkdir p # cs) = p # mkdir_paths cs"
  "mkdir_paths (cs @ cs') = mkdir_paths cs @ mkdir_paths cs'"
  by (simp_all add: mkdir_paths_def)

lemma stat_cases:
  obtains (closed) "sftp d = None" "stat T p d = (Inl not_connected, d)"
  | (sent) r w where "sftp d \<noteq> None" "stat T p d = (r, invoke (SftpStat p) w d)"
  by (cases "sftp d"; cases "sftp_stat T p (client d)") (auto simp: stat_def)

lemma mkdir_sent:
  "sftp d \<noteq> None \<Longrightarrow> \<exists>e w. mkdir T p d = (e, invoke (SftpMkdir p) w d)"
  by (cases "sftp_mkdir T p (client d)") (auto simp: mkdir_def)

declare mkdir_p_loop.simps(2) [simp del]

text \<open>
  Whatever the transport answers, the \<^verbatim>\<open>stat\<close> requests of the loop are for the prefixes in
  order, all of them when the loop succeeds, and every \<^verbatim>\<open>mkdir\<close> request is for a prefix that
  was asked about before.
\<close>

lemma mkdir_p_loop_calls:
  "\<exists>new. calls (snd (mkdir_p_loop T part names d)) = calls d @ new
      \<and> prefix (stat_paths new) (parts part names)
      \<and> (fst (mkdir_p_loop T part names d) = None \<longrightarrow> stat_paths new = parts part names)
      \<and> subseq (mkdir_paths new) (stat_paths new)"
proof (induction names arbitrary: part d)
  case Nil
  show ?case by simp
next
  case (Cons n names)
  let ?p = "posix_join part n"
  show ?case
  proof (rule stat_cases [where d = d and T = T and p = ?p], goal_cases closed sent)
    case closed
    then show ?thesis by (simp add: mkdir_p_loop.simps(2) mkdir_p_try_def not_connected_def)
  next
    case (sent r w)
    let ?d1 = "invoke (SftpStat ?p) w d"
    have c1: "calls ?d1 = calls d @ [SftpStat ?p]" by (simp add: invoke_def)
    have s1: "sftp ?d1 \<noteq> None" using sent(1) by (simp add: invoke_def)
    from Cons.IH [of ?p ?d1] obtain new1 where
      n1: "calls (snd (mkdir_p_loop T ?p names ?d1)) = calls ?d1 @ new1
        \<and> prefix (stat_paths new1) (parts ?p names)
        \<and> (fst (mkdir_p_loop T ?p names ?d1) = None \<longrightarrow> stat_paths new1 = parts ?p names)
        \<and> subseq (mkdir_paths new1) (stat_paths new1)" ..
    show ?thesis
    proof (cases r)
      case (Inr st)
      show ?thesis
      proof (cases "isDirectory st")
        case True
        then have "mkdir_p_loop T part (n # names) d = mkdir_p_loop T ?p names ?d1"
          using sent(2) Inr by (simp add: mkdir_p_loop.simps(2) mkdir_p_try_def)
        then show ?thesis using n1 c1
          by (intro exI [of _ "SftpStat ?p # new1"]) (simp add: list_emb_Cons)
      next
        case False
        then have "mkdir_p_loop T part (n # names) d = (Some (not_a_directory ?p), ?d1)"
          using sent(2) Inr by (simp add: mkdir_p_loop.simps(2) mkdir_p_try_def not_a_directory_def)
        then show ?thesis using c1
          by (intro exI [of _ "[SftpStat ?p]"]) simp
      qed
    next
      case (Inl err)
      show ?thesis
      proof (cases "error_code err = Some NO_SUCH_FILE")
        case False
        then have "mkdir_p_loop T part (n # names) d = (Some err, ?d1)"
          using sent(2) Inl by (simp add: mkdir_p_loop.simps(2) mkdir_p_try_def)
        then show ?thesis using c1
          by (intro exI [of _ "[SftpStat ?p]"]) simp
      next
        case True
        obtain e w2 where mk: "mkdir T ?p ?d1 = (e, invoke (SftpMkdir ?p) w2 ?d1)"
          using mkdir_sent [OF s1, of T ?p] by blast
        let ?d2 = "invoke (SftpMkdir ?p) w2 ?d1"
        have c2: "calls ?d2 = calls d @ [SftpStat ?p, SftpMkdir ?p]" by (simp add: invoke_def)
        show ?thesis
        proof (cases e)
          case (Some e')
          then have "mkdir_p_loop T part (n # names) d = (Some e', ?d2)"
            using sent(2) Inl True mk by (simp add: mkdir_p_loop.simps(2) mkdir_p_try_def)
          then show ?thesis using c2
            by (intro exI [of _ "[SftpStat ?p, SftpMkdir ?p]"]) simp
        next
          case None
          then have eq: "mkdir_p_loop T part (n # names) d = mkdir_p_loop T ?p names ?d2"
            using sent(2) Inl True mk by (simp add: mkdir_p_loop.simps(2) mkdir_p_try_def)
          from Cons.IH [of ?p ?d2] obtain new2 where
            n2: "calls (snd (mkdir_p_loop T ?p names ?d2)) = calls ?d2 @ new2
              \<and> prefix (stat_paths new2) (parts ?p names)
              \<and> (fst (mkdir_p_loop T ?p names ?d2) = None \<longrightarrow> stat_paths new2 = parts ?p names)
              \<and> subseq (mkdir_paths new2) (stat_paths new2)" ..
          show ?thesis using eq n2 c2
            by (intro exI [of _ "SftpStat ?p # SftpMkdir ?p # new2"]) simp
        qed
      qed
    qed
  qed
qed

text \<open>
  For a path of plain names the values of \<^verbatim>\<open>part\<close> are the prefixes of the path, shortest
  first: \<^verbatim>\<open>split\<close> gives the names back, and \<^verbatim>\<open>join\<close> appends one name at a time.
\<close>

lemma split_append_slash: "split (a @ CHR ''/'' # b) = split a @ split b"
proof (induction a)
  case Nil
  show ?case by simp
next
  case (Cons c a)
  show ?case
  proof (cases "c = CHR ''/''")
    case True
    then show ?thesis using Cons.IH by simp
  next
    case False
    obtain w ws where "split a = w # ws"
      using split_not_Nil [of a] by (cases "split a") auto
    then show ?thesis using False Cons.IH by simp
  qed
qed

lemma split_no_slash: "CHR ''/'' \<notin> set n \<Longrightarrow> split n = [n]"
  by (induction n) auto

lemma join_slash_Cons:
  "ns \<noteq> [] \<Longrightarrow> join_slash (n # ns) = n @ CHR ''/'' # join_slash ns"
  by (cases ns) simp_all

lemma join_slash_snoc:
  "ns \<noteq> [] \<Longrightarrow> join_slash (ns @ [n]) = join_slash ns @ CHR ''/'' # n"
  by (induction ns rule: join_slash.induct) simp_all

lemma split_join_slash:
  "list_all plain ns \<Longrightarrow> ns \<noteq> [] \<Longrightarrow> split (join_slash ns) = ns"
proof (induction ns rule: join_slash.induct)
  case 1
  then show ?case by simp
next
  case (2 s)
  then show ?case by (simp add: plain_def split_no_slash)
next
  case (3 s t ss)
  have "split (join_slash (s # t # ss)) = split s @ split (join_slash (t # ss))"
    using split_append_slash [of s "join_slash (t # ss)"] by simp
  then show ?case using 3 by (simp add: plain_def split_no_slash)
qed

lemma normalizeString_plain:
  "list_all (\<lambda>n. n = [] \<or> plain n) segs
   \<Longrightarrow> normalizeString allowAboveRoot res segs = res @ filter (\<lambda>n. n \<noteq> []) segs"
  by (induction segs arbitrary: res) (auto simp: plain_def)

lemma join_slash_not_Nil:
  "list_all plain ns \<Longrightarrow> ns \<noteq> [] \<Longrightarrow> join_slash ns \<noteq> []"
  by (induction ns rule: join_slash.induct) (simp_all add: plain_def)

lemma posix_join_plain:
  assumes ns: "list_all plain ns" and n: "plain n"
  shows "posix_join (absolute_path ns) n = absolute_path (ns @ [n])"
proof -
  let ?joined = "absolute_path ns @ ''/'' @ n"
  have n0: "n \<noteq> []" using n by (simp add: plain_def)
  have "CHR ''/'' \<notin> set n" using n by (simp add: plain_def)
  then have nl: "last n \<noteq> CHR ''/''" using n0 last_in_set [of n] by metis
  have segs: "split ?joined = [] # (if ns = [] then [] # [] else ns) @ [n]"
  proof (cases "ns = []")
    case True
    then show ?thesis using n by (simp add: absolute_path_def plain_def split_no_slash)
  next
    case False
    have "split ?joined = split (absolute_path ns) @ split n"
      using split_append_slash [of "absolute_path ns" n] by simp
    then show ?thesis
      using False ns n by (simp add: absolute_path_def split_join_slash split_no_slash plain_def)
  qed
  have "list_all (\<lambda>n. n = [] \<or> plain n) (split ?joined)"
    using segs ns n by (auto simp: list_all_iff)
  then have norm: "normalizeString False [] (split ?joined) = ns @ [n]"
    using normalizeString_plain [of "split ?joined" False "[]"] segs ns n
    by (auto simp: plain_def list_all_iff)
  have q: "join_slash (ns @ [n]) \<noteq> []"
    using join_slash_not_Nil [of "ns @ [n]"] ns n by simp
  have "normalize ?joined = ''/'' @ join_slash (ns @ [n])"
    using norm q n0 nl by (simp add: normalize_def isAbsolute_def absolute_path_def Let_def)
  then show ?thesis using n0 by (simp add: posix_join_def absolute_path_def)
qed

lemma parts_plain:
  "list_all plain ns \<Longrightarrow> list_all plain pre \<Longrightarrow>
   parts (absolute_path pre) ns = map (\<lambda>q. absolute_path (pre @ q)) (tl (prefixes ns))"
proof (induction ns arbitrary: pre)
  case Nil
  then show ?case by simp
next
  case (Cons n ns)
  have j: "posix_join (absolute_path pre) n = absolute_path (pre @ [n])"
    using posix_join_plain [of pre n] Cons.prems by simp
  have "prefixes ns = [] # tl (prefixes ns)" by (cases ns) simp_all
  then have t: "tl (prefixes (n # ns)) = [n] # map ((#) n) (tl (prefixes ns))"
    by (metis list.sel(3) list.simps(9) prefixes.simps(2))
  have "parts (absolute_path (pre @ [n])) ns
      = map (\<lambda>q. absolute_path ((pre @ [n]) @ q)) (tl (prefixes ns))"
    using Cons.IH [of "pre @ [n]"] Cons.prems by simp
  then show ?case using j t by (simp add: comp_def)
qed

lemma mkdir_p_prefixes:
  assumes "list_all plain ns" and "ns \<noteq> []"
  shows "parts ''/'' (tl (split (absolute_path ns))) = map absolute_path (tl (prefixes ns))"
proof -
  have "tl (split (absolute_path ns)) = ns"
    using assms by (simp add: absolute_path_def split_join_slash)
  moreover have "absolute_path [] = ''/''" by (simp add: absolute_path_def)
  ultimately show ?thesis using parts_plain [of ns "[]"] assms by simp
qed

text \<open>
  C3. For an absolute path \<open>mkdir_p\<close> runs the loop from the root over the segments of the
  path. At each prefix the loop sends \<^verbatim>\<open>stat\<close>. If the prefix exists and is no directory, the
  loop stops there with the error that names the prefix, in the state the \<^verbatim>\<open>stat\<close> left, so
  nothing more is created. If it is a directory, the loop goes on. If \<^verbatim>\<open>stat\<close> fails with
  \<^verbatim>\<open>NO_SUCH_FILE\<close>, the loop sends \<^verbatim>\<open>mkdir\<close> for the prefix and goes on when that succeeds,
  or stops with the error of \<^verbatim>\<open>mkdir\<close>. Any other error of \<^verbatim>\<open>stat\<close> comes back unchanged. The
  \<^verbatim>\<open>stat\<close> requests are for the successive values of \<^verbatim>\<open>part\<close> in order, which for a path
  of plain names are its prefixes from the shortest to the path itself. On the empty tree \<^verbatim>\<open>mkdir_p("/a/b/c")\<close>
  creates \<^verbatim>\<open>/a\<close>, \<^verbatim>\<open>/a/b\<close>, \<^verbatim>\<open>/a/b/c\<close> in that order; where \<^verbatim>\<open>/a\<close> is a file it stops after the
  first \<^verbatim>\<open>stat\<close> and names \<^verbatim>\<open>/a\<close>.
\<close>

theorem mkdir_p_walks_prefixes:
  "(isAbsolute dirPath \<longrightarrow> mkdir_p T dirPath d = mkdir_p_loop T ''/'' (tl (split dirPath)) d)
   \<and> (stat T (posix_join part n) d = (Inr st, d1) \<and> \<not> isDirectory st
        \<longrightarrow> mkdir_p_loop T part (n # names) d = (Some (Error (''Cannot create directory: '' @ [CHR 0x22] @ posix_join part n @ [CHR 0x22]
              @ '' exists but isn'' @ [CHR 0x27] @ ''t a directory'')), d1))
   \<and> (stat T (posix_join part n) d = (Inr st, d1) \<and> isDirectory st
        \<longrightarrow> mkdir_p_loop T part (n # names) d = mkdir_p_loop T (posix_join part n) names d1)
   \<and> (stat T (posix_join part n) d = (Inl err, d1) \<and> error_code err = Some NO_SUCH_FILE
        \<and> mkdir T (posix_join part n) d1 = (None, d2)
        \<longrightarrow> mkdir_p_loop T part (n # names) d = mkdir_p_loop T (posix_join part n) names d2)
   \<and> (stat T (posix_join part n) d = (Inl err, d1) \<and> error_code err = Some NO_SUCH_FILE
        \<and> mkdir T (posix_join part n) d1 = (Some e, d2)
        \<longrightarrow> mkdir_p_loop T part (n # names) d = (Some e, d2))
   \<and> (stat T (posix_join part n) d = (Inl err, d1) \<and> error_code err \<noteq> Some NO_SUCH_FILE
        \<longrightarrow> mkdir_p_loop T part (n # names) d = (Some err, d1))
   \<and> (\<exists>new. calls (snd (mkdir_p_loop T part names d)) = calls d @ new
        \<and> prefix (stat_paths new) (parts part names)
        \<and> (fst (mkdir_p_loop T part names d) = None \<longrightarrow> stat_paths new = parts part names)
        \<and> subseq (mkdir_paths new) (stat_paths new))
   \<and> (list_all plain ns \<and> ns \<noteq> []
        \<longrightarrow> parts ''/'' (tl (split (absolute_path ns))) = map absolute_path (tl (prefixes ns)))
   \<and> parts ''/'' (tl (split ''/a/b/c'')) = [''/a'', ''/a/b'', ''/a/b/c'']
   \<and> mkdir_p simulated ''/a/b/c'' (connected_to (serving empty_tree))
       = (None,
          (connected_to (serving [(''/'', Dir), (''/a'', Dir), (''/a/b'', Dir), (''/a/b/c'', Dir)]))
            \<lparr>calls := [SftpStat ''/a'', SftpMkdir ''/a'', SftpStat ''/a/b'', SftpMkdir ''/a/b'',
                       SftpStat ''/a/b/c'', SftpMkdir ''/a/b/c'']\<rparr>)
   \<and> mkdir_p simulated ''/a/b/c'' (connected_to (serving file_a))
       = (Some (Error (''Cannot create directory: '' @ [CHR 0x22] @ ''/a'' @ [CHR 0x22]
              @ '' exists but isn'' @ [CHR 0x27] @ ''t a directory'')), (connected_to (serving file_a))\<lparr>calls := [SftpStat ''/a'']\<rparr>)"
proof -
  have run: "mkdir_p simulated ''/a/b/c'' (connected_to (serving empty_tree))
       = (None,
          (connected_to (serving [(''/'', Dir), (''/a'', Dir), (''/a/b'', Dir), (''/a/b/c'', Dir)]))
            \<lparr>calls := [SftpStat ''/a'', SftpMkdir ''/a'', SftpStat ''/a/b'', SftpMkdir ''/a/b'',
                       SftpStat ''/a/b/c'', SftpMkdir ''/a/b/c'']\<rparr>)"
    by code_simp
  have stop: "mkdir_p simulated ''/a/b/c'' (connected_to (serving file_a))
       = (Some (Error (''Cannot create directory: '' @ [CHR 0x22] @ ''/a'' @ [CHR 0x22]
              @ '' exists but isn'' @ [CHR 0x27] @ ''t a directory'')), (connected_to (serving file_a))\<lparr>calls := [SftpStat ''/a'']\<rparr>)"
    by code_simp
  have prefixes: "parts ''/'' (tl (split ''/a/b/c'')) = [''/a'', ''/a/b'', ''/a/b/c'']"
    by code_simp
  have steps: "(stat T (posix_join part n) d = (Inr st, d1) \<and> \<not> isDirectory st
        \<longrightarrow> mkdir_p_loop T part (n # names) d = (Some (Error (''Cannot create directory: '' @ [CHR 0x22] @ posix_join part n @ [CHR 0x22]
              @ '' exists but isn'' @ [CHR 0x27] @ ''t a directory'')), d1))
   \<and> (stat T (posix_join part n) d = (Inr st, d1) \<and> isDirectory st
        \<longrightarrow> mkdir_p_loop T part (n # names) d = mkdir_p_loop T (posix_join part n) names d1)
   \<and> (stat T (posix_join part n) d = (Inl err, d1) \<and> error_code err = Some NO_SUCH_FILE
        \<and> mkdir T (posix_join part n) d1 = (None, d2)
        \<longrightarrow> mkdir_p_loop T part (n # names) d = mkdir_p_loop T (posix_join part n) names d2)
   \<and> (stat T (posix_join part n) d = (Inl err, d1) \<and> error_code err = Some NO_SUCH_FILE
        \<and> mkdir T (posix_join part n) d1 = (Some e, d2)
        \<longrightarrow> mkdir_p_loop T part (n # names) d = (Some e, d2))
   \<and> (stat T (posix_join part n) d = (Inl err, d1) \<and> error_code err \<noteq> Some NO_SUCH_FILE
        \<longrightarrow> mkdir_p_loop T part (n # names) d = (Some err, d1))"
    by (simp add: mkdir_p_loop.simps(2) mkdir_p_try_def not_a_directory_def)
  have entry: "isAbsolute dirPath \<longrightarrow> mkdir_p T dirPath d = mkdir_p_loop T ''/'' (tl (split dirPath)) d"
    by (simp add: mkdir_p_def)
  have plain_prefixes: "list_all plain ns \<and> ns \<noteq> []
        \<longrightarrow> parts ''/'' (tl (split (absolute_path ns))) = map absolute_path (tl (prefixes ns))"
    using mkdir_p_prefixes [of ns] by blast
  from entry steps mkdir_p_loop_calls [of T part names d] plain_prefixes prefixes run stop
  show ?thesis by blast
qed

text \<open>
  One prefix of each kind on the simulated server: a file, a directory, a missing entry, and
  a \<^verbatim>\<open>stat\<close> that is denied.
\<close>

theorem mkdir_p_walks_prefixes_witness:
  "mkdir_p simulated ''/a/b/c'' (connected_to (serving empty_tree))
     = mkdir_p_loop simulated ''/'' [''a'', ''b'', ''c''] (connected_to (serving empty_tree))
   \<and> mkdir_p_loop simulated ''/'' [''a'', ''b''] (connected_to (serving file_a))
     = (Some (Error (''Cannot create directory: '' @ [CHR 0x22] @ ''/a'' @ [CHR 0x22]
              @ '' exists but isn'' @ [CHR 0x27] @ ''t a directory'')), (connected_to (serving file_a))\<lparr>calls := [SftpStat ''/a'']\<rparr>)
   \<and> mkdir_p_loop simulated ''/'' [''home'', ''robot''] (connected_to robot_home)
     = mkdir_p_loop simulated ''/home'' [''robot''] ((connected_to robot_home)\<lparr>calls := [SftpStat ''/home'']\<rparr>)
   \<and> mkdir_p_loop simulated ''/'' [''a'', ''b''] (connected_to (serving empty_tree))
     = mkdir_p_loop simulated ''/a'' [''b'']
         ((connected_to (serving [(''/'', Dir), (''/a'', Dir)]))\<lparr>calls := [SftpStat ''/a'', SftpMkdir ''/a'']\<rparr>)
   \<and> mkdir_p_loop simulated ''/'' [''a'', ''b''] (connected_to ((serving empty_tree)\<lparr>faults := [(SftpStat ''/a'', denied)]\<rparr>))
     = (Some denied, (connected_to ((serving empty_tree)\<lparr>faults := [(SftpStat ''/a'', denied)]\<rparr>))\<lparr>calls := [SftpStat ''/a'']\<rparr>)
   \<and> parts ''/'' (tl (split (absolute_path [''home'', ''robot'']))) = [''/home'', ''/home/robot'']"
proof -
  let ?e = "connected_to (serving empty_tree)"
  let ?f = "connected_to (serving file_a)"
  let ?h = "connected_to robot_home"
  let ?x = "connected_to ((serving empty_tree)\<lparr>faults := [(SftpStat ''/a'', denied)]\<rparr>)"
  have a: "isAbsolute ''/a/b/c''" and s: "tl (split ''/a/b/c'') = [''a'', ''b'', ''c'']"
    by code_simp+
  have f: "stat simulated (posix_join ''/'' ''a'') ?f = (Inr (Stats False), ?f\<lparr>calls := [SftpStat ''/a'']\<rparr>)
      \<and> \<not> isDirectory (Stats False)" 
    and fp: "posix_join ''/'' ''a'' = ''/a''"
    by code_simp+
  have h: "stat simulated (posix_join ''/'' ''home'') ?h = (Inr (Stats True), ?h\<lparr>calls := [SftpStat ''/home'']\<rparr>)
      \<and> isDirectory (Stats True)"
    and hp: "posix_join ''/'' ''home'' = ''/home''"
    by code_simp+
  have e: "stat simulated (posix_join ''/'' ''a'') ?e = (Inl no_such_file, ?e\<lparr>calls := [SftpStat ''/a'']\<rparr>)
      \<and> error_code no_such_file = Some NO_SUCH_FILE
      \<and> mkdir simulated (posix_join ''/'' ''a'') (?e\<lparr>calls := [SftpStat ''/a'']\<rparr>)
        = (None, (connected_to (serving [(''/'', Dir), (''/a'', Dir)]))\<lparr>calls := [SftpStat ''/a'', SftpMkdir ''/a'']\<rparr>)"
    by code_simp
  have x: "stat simulated (posix_join ''/'' ''a'') ?x = (Inl denied, ?x\<lparr>calls := [SftpStat ''/a'']\<rparr>)
      \<and> error_code denied \<noteq> Some NO_SUCH_FILE"
    by code_simp
  from mkdir_p_walks_prefixes [where dirPath = "''/a/b/c''" and T = simulated and d = ?e] a s
  have 1: "mkdir_p simulated ''/a/b/c'' ?e = mkdir_p_loop simulated ''/'' [''a'', ''b'', ''c''] ?e"
    by simp
  from mkdir_p_walks_prefixes [where T = simulated and part = "''/''" and n = "''a''" and d = ?f
      and st = "Stats False" and ?d1.0 = "?f\<lparr>calls := [SftpStat ''/a'']\<rparr>" and names = "[''b'']"] f fp
  have 2: "mkdir_p_loop simulated ''/'' [''a'', ''b''] ?f
     = (Some (Error (''Cannot create directory: '' @ [CHR 0x22] @ ''/a'' @ [CHR 0x22]
              @ '' exists but isn'' @ [CHR 0x27] @ ''t a directory'')), ?f\<lparr>calls := [SftpStat ''/a'']\<rparr>)"
    by simp
  from mkdir_p_walks_prefixes [where T = simulated and part = "''/''" and n = "''home''" and d = ?h
      and st = "Stats True" and ?d1.0 = "?h\<lparr>calls := [SftpStat ''/home'']\<rparr>" and names = "[''robot'']"] h hp
  have 3: "mkdir_p_loop simulated ''/'' [''home'', ''robot''] ?h
     = mkdir_p_loop simulated ''/home'' [''robot''] (?h\<lparr>calls := [SftpStat ''/home'']\<rparr>)"
    by simp
  from mkdir_p_walks_prefixes [where T = simulated and part = "''/''" and n = "''a''" and d = ?e
      and err = no_such_file and ?d1.0 = "?e\<lparr>calls := [SftpStat ''/a'']\<rparr>" and names = "[''b'']"
      and ?d2.0 = "(connected_to (serving [(''/'', Dir), (''/a'', Dir)]))\<lparr>calls := [SftpStat ''/a'', SftpMkdir ''/a'']\<rparr>"] e fp
  have 4: "mkdir_p_loop simulated ''/'' [''a'', ''b''] ?e
     = mkdir_p_loop simulated ''/a'' [''b'']
         ((connected_to (serving [(''/'', Dir), (''/a'', Dir)]))\<lparr>calls := [SftpStat ''/a'', SftpMkdir ''/a'']\<rparr>)"
    by simp
  from mkdir_p_walks_prefixes [where T = simulated and part = "''/''" and n = "''a''" and d = ?x
      and err = denied and ?d1.0 = "?x\<lparr>calls := [SftpStat ''/a'']\<rparr>" and names = "[''b'']"] x fp
  have 5: "mkdir_p_loop simulated ''/'' [''a'', ''b''] ?x = (Some denied, ?x\<lparr>calls := [SftpStat ''/a'']\<rparr>)"
    by simp
  have pl: "list_all plain [''home'', ''robot''] \<and> [''home'', ''robot''] \<noteq> []"
    by (simp add: plain_def)
  from mkdir_p_walks_prefixes [where ns = "[''home'', ''robot'']"] pl
  have 6: "parts ''/'' (tl (split (absolute_path [''home'', ''robot''])))
      = map absolute_path (tl (prefixes [''home'', ''robot'']))"
    by blast
  have 7: "map absolute_path (tl (prefixes [''home'', ''robot''])) = [''/home'', ''/home/robot'']"
    by (simp add: absolute_path_def)
  from 6 7 have 8: "parts ''/'' (tl (split (absolute_path [''home'', ''robot''])))
      = [''/home'', ''/home/robot'']"
    by (rule trans)
  from 1 2 3 4 5 8 show ?thesis by blast
qed

subsection \<open>Recursive remove\<close>

text \<open>A call that settles within some depth settles the same way within any greater depth.\<close>

lemma rm_rf_deeper:
  "rm_rf T depth p d = (Settled r, d') \<Longrightarrow> rm_rf T (Suc depth) p d = (Settled r, d')"
  "rm_rf_each T depth p entries d = (Settled r, d') \<Longrightarrow> rm_rf_each T (Suc depth) p entries d = (Settled r, d')"
proof (induction T depth p d and T depth p entries d arbitrary: r d' and r d'
    rule: rm_rf_rm_rf_each.induct)
  case (1 T p d)
  then show ?case by simp
next
  case (2 T depth p d)
  obtain rs d1 where st: "stat T p d = (rs, d1)" by (cases "stat T p d")
  show ?case
  proof (cases rs)
    case (Inl err)
    then show ?thesis using st "2.prems" by simp
  next
    case (Inr stats)
    show ?thesis
    proof (cases "isDirectory stats")
      case False
      then show ?thesis using st Inr "2.prems" by simp
    next
      case True
      obtain rl d2 where l: "ls T p d1 = (rl, d2)" by (cases "ls T p d1")
      show ?thesis
      proof (cases rl)
        case (Inl err)
        then show ?thesis using st Inr True l "2.prems" by simp
      next
        case (Inr entries)
        obtain r3 d3 where e: "rm_rf_each T depth p entries d2 = (r3, d3)"
          by (cases "rm_rf_each T depth p entries d2")
        have "r3 \<noteq> Pending"
          using "2.prems" st \<open>rs = Inr stats\<close> True l Inr e by auto
        then obtain x where x: "r3 = Settled x" by (cases r3) auto
        have deeper: "rm_rf_each T (Suc depth) p entries d2 = (Settled x, d3)"
          using "2.IH" [OF st [symmetric] \<open>rs = Inr stats\<close> True l [symmetric] Inr] e x by simp
        have now: "rm_rf T (Suc depth) p d
            = (case x of None \<Rightarrow> (case rmdir T p d3 of (err, d4) \<Rightarrow> (Settled err, d4))
               | Some err \<Rightarrow> (Settled (Some err), d3))"
          using st \<open>rs = Inr stats\<close> True l Inr e x by (simp split: option.splits)
        have "rm_rf T (Suc (Suc depth)) p d
            = (case x of None \<Rightarrow> (case rmdir T p d3 of (err, d4) \<Rightarrow> (Settled err, d4))
               | Some err \<Rightarrow> (Settled (Some err), d3))"
          using st \<open>rs = Inr stats\<close> True l Inr deeper
          by (simp add: rm_rf.simps(2) [of T "Suc depth"] split: option.splits)
        then show ?thesis using now "2.prems" by simp
      qed
    qed
  qed
next
  case (3 T depth p d)
  then show ?case by simp
next
  case (4 T depth p filename entries d)
  obtain r1 d1 where c: "rm_rf T depth (p @ ''/'' @ filename) d = (r1, d1)"
    by (cases "rm_rf T depth (p @ ''/'' @ filename) d")
  have "r1 \<noteq> Pending" using "4.prems" c by auto
  then obtain x where x: "r1 = Settled x" by (cases r1) auto
  have deeper: "rm_rf T (Suc depth) (p @ ''/'' @ filename) d = (Settled x, d1)"
    using "4.IH"(1) c x by simp
  show ?case
  proof (cases x)
    case None
    then have "rm_rf_each T depth p entries d1 = (Settled r, d')"
      using "4.prems" c x by simp
    then have "rm_rf_each T (Suc depth) p entries d1 = (Settled r, d')"
      using "4.IH"(2) [OF c [symmetric] x None] by simp
    then show ?thesis using deeper None by (simp del: rm_rf.simps)
  next
    case (Some err)
    then have "(Settled r, d') = (Settled (Some err), d1)" using "4.prems" c x by simp
    then show ?thesis using deeper Some by (simp del: rm_rf.simps)
  qed
qed

lemma rm_rf_depth:
  "rm_rf T depth p d = (Settled r, d') \<Longrightarrow> rm_rf T (depth + k) p d = (Settled r, d')"
  by (induction k) (simp_all add: rm_rf_deeper(1) del: rm_rf.simps)

text \<open>
  C5. \<open>rm_rf\<close> sends \<^verbatim>\<open>stat\<close> for its target and rejects with the error of \<^verbatim>\<open>stat\<close>, if any.
  For a directory it lists the entries, removes each entry \<^verbatim>\<open>path/filename\<close> by a call of
  itself, in the order of the listing, and then sends \<^verbatim>\<open>rmdir\<close> for the directory; for
  anything else it sends \<^verbatim>\<open>unlink\<close>. The first entry whose removal is rejected ends the
  call with that error, in the state that removal left: the entries after it are not
  touched, and nothing is undone. The depth allowed for the calls does not change a result
  that has settled. On the tree with \<^verbatim>\<open>f1\<close>, \<^verbatim>\<open>f2\<close> and \<^verbatim>\<open>d/f3\<close> the call removes \<^verbatim>\<open>f1\<close>,
  \<^verbatim>\<open>f2\<close>, \<^verbatim>\<open>f3\<close>, \<^verbatim>\<open>d\<close> and the directory itself, and leaves the rest of the tree; when the
  \<^verbatim>\<open>unlink\<close> of \<^verbatim>\<open>f2\<close> is denied, \<^verbatim>\<open>f1\<close> stays removed, everything else stays in place, and
  the call rejects with the error of that \<^verbatim>\<open>unlink\<close>.
\<close>

theorem rm_rf_depth_first:
  "(stat T p d = (Inl err, d1) \<longrightarrow> rm_rf T (Suc depth) p d = (Settled (Some err), d1))
   \<and> (stat T p d = (Inr st, d1) \<and> \<not> isDirectory st
        \<longrightarrow> rm_rf T (Suc depth) p d = (Settled (fst (rm T p d1)), snd (rm T p d1)))
   \<and> (stat T p d = (Inr st, d1) \<and> isDirectory st \<and> ls T p d1 = (Inl err, d2)
        \<longrightarrow> rm_rf T (Suc depth) p d = (Settled (Some err), d2))
   \<and> (stat T p d = (Inr st, d1) \<and> isDirectory st \<and> ls T p d1 = (Inr entries, d2)
        \<and> rm_rf_each T depth p entries d2 = (Settled None, d3)
        \<longrightarrow> rm_rf T (Suc depth) p d = (Settled (fst (rmdir T p d3)), snd (rmdir T p d3)))
   \<and> (stat T p d = (Inr st, d1) \<and> isDirectory st \<and> ls T p d1 = (Inr entries, d2)
        \<and> rm_rf_each T depth p entries d2 = (Settled (Some err), d3)
        \<longrightarrow> rm_rf T (Suc depth) p d = (Settled (Some err), d3))
   \<and> rm_rf_each T depth p [] d = (Settled None, d)
   \<and> (rm_rf T depth (p @ ''/'' @ filename) d = (Settled None, d1)
        \<longrightarrow> rm_rf_each T depth p (filename # entries) d = rm_rf_each T depth p entries d1)
   \<and> (rm_rf T depth (p @ ''/'' @ filename) d = (Settled (Some err), d1)
        \<longrightarrow> rm_rf_each T depth p (filename # entries) d = (Settled (Some err), d1))
   \<and> (rm_rf T depth p d = (Settled r, d') \<longrightarrow> rm_rf T (depth + k) p d = (Settled r, d'))
   \<and> rm_rf simulated 3 ''/p'' (connected_to (serving project))
       = (Settled None,
          (connected_to (serving [(''/'', Dir), (''/q'', File)]))
            \<lparr>calls := [SftpStat ''/p'', SftpReaddir ''/p'',
                       SftpStat ''/p/f1'', SftpUnlink ''/p/f1'',
                       SftpStat ''/p/f2'', SftpUnlink ''/p/f2'',
                       SftpStat ''/p/d'', SftpReaddir ''/p/d'',
                       SftpStat ''/p/d/f3'', SftpUnlink ''/p/d/f3'',
                       SftpRmdir ''/p/d'', SftpRmdir ''/p'']\<rparr>)
   \<and> rm_rf simulated 3 ''/p'' (connected_to protecting_f2)
       = (Settled (Some denied),
          (connected_to
             (protecting_f2\<lparr>tree := [(''/'', Dir), (''/p'', Dir), (''/p/f2'', File), (''/p/d'', Dir),
                                      (''/p/d/f3'', File), (''/q'', File)]\<rparr>))
            \<lparr>calls := [SftpStat ''/p'', SftpReaddir ''/p'',
                       SftpStat ''/p/f1'', SftpUnlink ''/p/f1'',
                       SftpStat ''/p/f2'', SftpUnlink ''/p/f2'']\<rparr>)"
proof -
  have steps: "(stat T p d = (Inl err, d1) \<longrightarrow> rm_rf T (Suc depth) p d = (Settled (Some err), d1))
   \<and> (stat T p d = (Inr st, d1) \<and> \<not> isDirectory st
        \<longrightarrow> rm_rf T (Suc depth) p d = (Settled (fst (rm T p d1)), snd (rm T p d1)))
   \<and> (stat T p d = (Inr st, d1) \<and> isDirectory st \<and> ls T p d1 = (Inl err, d2)
        \<longrightarrow> rm_rf T (Suc depth) p d = (Settled (Some err), d2))
   \<and> (stat T p d = (Inr st, d1) \<and> isDirectory st \<and> ls T p d1 = (Inr entries, d2)
        \<and> rm_rf_each T depth p entries d2 = (Settled None, d3)
        \<longrightarrow> rm_rf T (Suc depth) p d = (Settled (fst (rmdir T p d3)), snd (rmdir T p d3)))
   \<and> (stat T p d = (Inr st, d1) \<and> isDirectory st \<and> ls T p d1 = (Inr entries, d2)
        \<and> rm_rf_each T depth p entries d2 = (Settled (Some err), d3)
        \<longrightarrow> rm_rf T (Suc depth) p d = (Settled (Some err), d3))"
    by (simp add: split_def)
  have each: "rm_rf_each T depth p [] d = (Settled None, d)
   \<and> (rm_rf T depth (p @ ''/'' @ filename) d = (Settled None, d1)
        \<longrightarrow> rm_rf_each T depth p (filename # entries) d = rm_rf_each T depth p entries d1)
   \<and> (rm_rf T depth (p @ ''/'' @ filename) d = (Settled (Some err), d1)
        \<longrightarrow> rm_rf_each T depth p (filename # entries) d = (Settled (Some err), d1))"
    by simp
  have all_gone: "rm_rf simulated 3 ''/p'' (connected_to (serving project))
       = (Settled None,
          (connected_to (serving [(''/'', Dir), (''/q'', File)]))
            \<lparr>calls := [SftpStat ''/p'', SftpReaddir ''/p'',
                       SftpStat ''/p/f1'', SftpUnlink ''/p/f1'',
                       SftpStat ''/p/f2'', SftpUnlink ''/p/f2'',
                       SftpStat ''/p/d'', SftpReaddir ''/p/d'',
                       SftpStat ''/p/d/f3'', SftpUnlink ''/p/d/f3'',
                       SftpRmdir ''/p/d'', SftpRmdir ''/p'']\<rparr>)"
    by code_simp
  have partial: "rm_rf simulated 3 ''/p'' (connected_to protecting_f2)
       = (Settled (Some denied),
          (connected_to
             (protecting_f2\<lparr>tree := [(''/'', Dir), (''/p'', Dir), (''/p/f2'', File), (''/p/d'', Dir),
                                      (''/p/d/f3'', File), (''/q'', File)]\<rparr>))
            \<lparr>calls := [SftpStat ''/p'', SftpReaddir ''/p'',
                       SftpStat ''/p/f1'', SftpUnlink ''/p/f1'',
                       SftpStat ''/p/f2'', SftpUnlink ''/p/f2'']\<rparr>)"
    by code_simp
  from steps each rm_rf_depth [of T depth p d r d' k] all_gone partial show ?thesis
    by blast
qed

text \<open>
  A missing target, a file, an entry whose removal is denied, and a greater depth, on the
  simulated server.
\<close>

theorem rm_rf_depth_first_witness:
  "rm_rf simulated 1 ''/missing'' (connected_to (serving project))
     = (Settled (Some no_such_file), (connected_to (serving project))\<lparr>calls := [SftpStat ''/missing'']\<rparr>)
   \<and> rm_rf simulated 1 ''/q'' (connected_to (serving project))
     = (Settled None,
        (connected_to (serving [(''/'', Dir), (''/p'', Dir), (''/p/f1'', File), (''/p/f2'', File),
                                (''/p/d'', Dir), (''/p/d/f3'', File)]))
          \<lparr>calls := [SftpStat ''/q'', SftpUnlink ''/q'']\<rparr>)
   \<and> rm_rf_each simulated 1 ''/p'' [''f2'', ''d''] (connected_to protecting_f2)
     = (Settled (Some denied),
        (connected_to protecting_f2)\<lparr>calls := [SftpStat ''/p/f2'', SftpUnlink ''/p/f2'']\<rparr>)
   \<and> fst (rm_rf simulated (3 + 4) ''/p'' (connected_to (serving project))) = Settled None"
proof -
  let ?P = "connected_to (serving project)"
  let ?F = "connected_to protecting_f2"
  have m: "stat simulated ''/missing'' ?P = (Inl no_such_file, ?P\<lparr>calls := [SftpStat ''/missing'']\<rparr>)"
    by code_simp
  have q: "stat simulated ''/q'' ?P = (Inr (Stats False), ?P\<lparr>calls := [SftpStat ''/q'']\<rparr>)
      \<and> \<not> isDirectory (Stats False)"
    and q': "rm simulated ''/q'' (?P\<lparr>calls := [SftpStat ''/q'']\<rparr>)
      = (None, (connected_to (serving [(''/'', Dir), (''/p'', Dir), (''/p/f1'', File), (''/p/f2'', File),
                                (''/p/d'', Dir), (''/p/d/f3'', File)]))
          \<lparr>calls := [SftpStat ''/q'', SftpUnlink ''/q'']\<rparr>)"
    by code_simp+
  have f: "rm_rf simulated 1 (''/p'' @ ''/'' @ ''f2'') ?F
      = (Settled (Some denied), ?F\<lparr>calls := [SftpStat ''/p/f2'', SftpUnlink ''/p/f2'']\<rparr>)"
    by code_simp
  have g: "rm_rf simulated 3 ''/p'' ?P
       = (Settled None,
          (connected_to (serving [(''/'', Dir), (''/q'', File)]))
            \<lparr>calls := [SftpStat ''/p'', SftpReaddir ''/p'',
                       SftpStat ''/p/f1'', SftpUnlink ''/p/f1'',
                       SftpStat ''/p/f2'', SftpUnlink ''/p/f2'',
                       SftpStat ''/p/d'', SftpReaddir ''/p/d'',
                       SftpStat ''/p/d/f3'', SftpUnlink ''/p/d/f3'',
                       SftpRmdir ''/p/d'', SftpRmdir ''/p'']\<rparr>)"
    by code_simp
  from rm_rf_depth_first [where T = simulated and p = "''/missing''" and d = ?P and err = no_such_file
      and ?d1.0 = "?P\<lparr>calls := [SftpStat ''/missing'']\<rparr>" and depth = 0] m
  have 1: "rm_rf simulated 1 ''/missing'' ?P
     = (Settled (Some no_such_file), ?P\<lparr>calls := [SftpStat ''/missing'']\<rparr>)"
    by simp
  from rm_rf_depth_first [where T = simulated and p = "''/q''" and d = ?P and st = "Stats False"
      and ?d1.0 = "?P\<lparr>calls := [SftpStat ''/q'']\<rparr>" and depth = 0] q q'
  have 2: "rm_rf simulated 1 ''/q'' ?P
     = (Settled None,
        (connected_to (serving [(''/'', Dir), (''/p'', Dir), (''/p/f1'', File), (''/p/f2'', File),
                                (''/p/d'', Dir), (''/p/d/f3'', File)]))
          \<lparr>calls := [SftpStat ''/q'', SftpUnlink ''/q'']\<rparr>)"
    by simp
  from rm_rf_depth_first [where T = simulated and p = "''/p''" and filename = "''f2''" and d = ?F
      and err = denied and ?d1.0 = "?F\<lparr>calls := [SftpStat ''/p/f2'', SftpUnlink ''/p/f2'']\<rparr>"
      and depth = 1 and entries = "[''d'']"] f
  have 3: "rm_rf_each simulated 1 ''/p'' [''f2'', ''d''] ?F
     = (Settled (Some denied), ?F\<lparr>calls := [SftpStat ''/p/f2'', SftpUnlink ''/p/f2'']\<rparr>)"
    by simp
  from rm_rf_depth_first [where T = simulated and p = "''/p''" and d = ?P and depth = 3 and r = None
      and d' = "(connected_to (serving [(''/'', Dir), (''/q'', File)]))
            \<lparr>calls := [SftpStat ''/p'', SftpReaddir ''/p'',
                       SftpStat ''/p/f1'', SftpUnlink ''/p/f1'',
                       SftpStat ''/p/f2'', SftpUnlink ''/p/f2'',
                       SftpStat ''/p/d'', SftpReaddir ''/p/d'',
                       SftpStat ''/p/d/f3'', SftpUnlink ''/p/d/f3'',
                       SftpRmdir ''/p/d'', SftpRmdir ''/p'']\<rparr>" and k = 4] g
  have 4: "fst (rm_rf simulated (3 + 4) ''/p'' ?P) = Settled None"
    by simp
  from 1 2 3 4 show ?thesis by simp
qed

subsection \<open>Creating twice\<close>

lemma error_code_not_a_directory [simp]: "error_code (not_a_directory p) = None"
  by (simp add: not_a_directory_def)



























end
